theory Spec2Isabelle
  imports Main "HOL-Library.Char_ord" "HOL-Library.List_Lexorder" "HOL-Library.Multiset"
begin

section \<open>Library functions used by the assembler\<close>

text \<open>
  Go strings are byte sequences: \<^typ>\<open>string\<close>. The assembler formats integers with
  \<^verbatim>\<open>%v\<close> (decimal) and takes the last element of a path with \<^verbatim>\<open>filepath.Base\<close>.
  The counters it formats (\<^verbatim>\<open>i\<close> in \<^verbatim>\<open>makeFuncName\<close>, \<^verbatim>\<open>len(c.builtinTexts)\<close>) start at
  zero and only grow by one per stored identifier, so they are natural numbers here.
\<close>

definition digit_char :: "nat \<Rightarrow> char" where
  "digit_char d = ''0123456789'' ! d"

fun itoa :: "nat \<Rightarrow> string" where
  "itoa n = (if n < 10 then [digit_char n] else itoa (n div 10) @ [digit_char (n mod 10)])"

declare itoa.simps [simp del]

definition is_sep :: "char \<Rightarrow> bool" where
  "is_sep ch = (ch = CHR ''/'')"

text \<open>
  \<^verbatim>\<open>filepath.Base\<close> on a slash-separated path: the empty path gives \<^verbatim>\<open>.\<close>, trailing
  separators are stripped, the part after the last separator is kept, and a path of
  separators only gives the separator.
\<close>

definition filepath_Base :: "string \<Rightarrow> string" where
  "filepath_Base path =
     (if path = [] then ''.''
      else let p = rev (dropWhile is_sep (rev path));
               e = rev (takeWhile (\<lambda>ch. \<not> is_sep ch) (rev p))
           in if e = [] then ''/'' else e)"

section \<open>The program under construction\<close>

text \<open>
  \<^verbatim>\<open>ast.ImportSpec\<close>: \<open>Name\<close> is the alias identifier (a nil pointer when the import is
  not aliased), \<open>Path\<close> is the quoted path literal \<^verbatim>\<open>Path.Value\<close>.
  \<^verbatim>\<open>ast.FuncDecl\<close> is kept as a name and an opaque body.
\<close>

record ImportSpec =
  Name :: "string option"
  Path :: string

datatype FuncDecl = FuncDecl (fn_name: string) (fn_body: string)

text \<open>
  \<^verbatim>\<open>builtinTexts\<close> is a Go map from literal text to constant name. It is kept as an
  association list with one entry per key; \<^verbatim>\<open>len\<close> is its length and a lookup is
  \<^const>\<open>map_of\<close>. The position of an entry in the list is not observable through a Go map:
  wherever the source ranges over the map, the order is chosen by the runtime and the
  model takes it as an argument.
\<close>

record CompiledTemplatesProgram =
  varName :: string
  imports' :: "ImportSpec list"
  funcs :: "FuncDecl list"
  idents :: "string list"
  builtinTexts :: "(string \<times> string) list"

definition isCollidingIdent :: "CompiledTemplatesProgram \<Rightarrow> string \<Rightarrow> bool" where
  "isCollidingIdent c ident =
     (list_ex (\<lambda>i. Name i = Some ident) (imports' c) \<or> ident \<in> set (idents c))"

text \<open>
  \<^verbatim>\<open>addImport\<close>. The quoting \<^verbatim>\<open>fmt.Sprintf("%q", pkgpath)\<close> is the argument \<open>quote\<close>.
  The new record is appended before the collision test, with a nil name, and its name
  is set afterwards through the pointer.
\<close>

definition addImport ::
  "(string \<Rightarrow> string) \<Rightarrow> CompiledTemplatesProgram \<Rightarrow> string \<Rightarrow> CompiledTemplatesProgram \<times> string" where
  "addImport quote c pkgpath =
     (let qpath = quote pkgpath; bpath = filepath_Base pkgpath in
      case find (\<lambda>i. Path i = qpath) (imports' c) of
        Some i \<Rightarrow> (case Name i of None \<Rightarrow> (c, bpath) | Some n \<Rightarrow> (c, n))
      | None \<Rightarrow>
          (let newImport = \<lparr>Name = None, Path = qpath\<rparr>;
               c1 = c\<lparr>imports' := imports' c @ [newImport]\<rparr>
           in if isCollidingIdent c1 bpath
              then (let bpath' = ''alias'' @ bpath;
                        c2 = c1\<lparr>imports' := imports' c @ [newImport\<lparr>Name := Some bpath'\<rparr>]\<rparr>
                    in (c2\<lparr>idents := idents c2 @ [bpath']\<rparr>, bpath'))
              else (c1\<lparr>idents := idents c1 @ [bpath]\<rparr>, bpath)))"

text \<open>
  \<^verbatim>\<open>makeFuncName\<close>: the loop \<^verbatim>\<open>for c.isCollidingIdent(x) { x = "fn" + i + baseName; i++ }\<close>.
\<close>

definition ident_bound :: "CompiledTemplatesProgram \<Rightarrow> nat" where
  "ident_bound c =
     sum_list (map length (idents c)) +
     sum_list (map (\<lambda>i. case Name i of None \<Rightarrow> 0 | Some n \<Rightarrow> length n) (imports' c))"

lemma itoa_bound: "n < 10 ^ length (itoa n)"
proof (induction n rule: itoa.induct)
  case (1 n)
  show ?case
  proof (cases "n < 10")
    case True
    then show ?thesis by (simp add: itoa.simps [of n])
  next
    case False
    with 1 have "n div 10 < 10 ^ length (itoa (n div 10))" by simp
    then have "n < 10 * 10 ^ length (itoa (n div 10))" by arith
    with False show ?thesis by (simp add: itoa.simps [of n])
  qed
qed

lemma elem_le_sum_list: "x \<in> set xs \<Longrightarrow> f x \<le> sum_list (map f xs)" for f :: "'a \<Rightarrow> nat"
  by (induction xs) auto

lemma colliding_length: "isCollidingIdent c x \<Longrightarrow> length x \<le> ident_bound c"
proof -
  assume "isCollidingIdent c x"
  then consider (imp) i where "i \<in> set (imports' c)" "Name i = Some x"
    | (idt) "x \<in> set (idents c)"
    by (auto simp: isCollidingIdent_def list_ex_iff)
  then show ?thesis
  proof cases
    case imp
    from elem_le_sum_list [OF imp(1), of "\<lambda>i. case Name i of None \<Rightarrow> 0 | Some n \<Rightarrow> length n"] imp(2)
    show ?thesis by (simp add: ident_bound_def)
  next
    case idt
    from elem_le_sum_list [OF idt, of length]
    show ?thesis by (simp add: ident_bound_def)
  qed
qed

function makeFuncName_loop ::
  "CompiledTemplatesProgram \<Rightarrow> string \<Rightarrow> string \<Rightarrow> nat \<Rightarrow> string" where
  "makeFuncName_loop c baseName x i =
     (if isCollidingIdent c x
      then makeFuncName_loop c baseName (''fn'' @ itoa i @ baseName) (i + 1)
      else x)"
  by pat_completeness auto
termination
proof (relation "measure (\<lambda>(c, baseName, x, i).
          (10 ^ ident_bound c - i) + (if isCollidingIdent c x then 1 else 0))", goal_cases)
  case 1
  show ?case by simp
next
  case (2 c baseName x i)
  show ?case
  proof (cases "isCollidingIdent c (''fn'' @ itoa i @ baseName)")
    case True
    from colliding_length [OF True] have "length (itoa i) < ident_bound c" by simp
    then have "(10::nat) ^ length (itoa i) < 10 ^ ident_bound c"
      by simp
    with itoa_bound [of i] have "i < 10 ^ ident_bound c" by arith
    with True 2 show ?thesis by simp
  next
    case False
    have "10 ^ ident_bound c - Suc i < Suc (10 ^ ident_bound c - i)" by arith
    with False 2 show ?thesis by simp
  qed
qed

declare makeFuncName_loop.simps [simp del]

definition makeFuncName ::
  "CompiledTemplatesProgram \<Rightarrow> string \<Rightarrow> CompiledTemplatesProgram \<times> string" where
  "makeFuncName c baseName =
     (let x = makeFuncName_loop c baseName baseName 0
      in (c\<lparr>idents := idents c @ [x]\<rparr>, x))"

definition candidate :: "string \<Rightarrow> nat \<Rightarrow> string" where
  "candidate baseName i = ''fn'' @ itoa i @ baseName"

text \<open>
  \<^verbatim>\<open>addBuiltintText\<close>: the name of a new literal is formatted from \<^verbatim>\<open>len(c.builtinTexts)\<close>
  before the entry is stored.
\<close>

definition addBuiltintText ::
  "CompiledTemplatesProgram \<Rightarrow> string \<Rightarrow> CompiledTemplatesProgram \<times> string" where
  "addBuiltintText c text =
     (case map_of (builtinTexts c) text of
        Some x \<Rightarrow> (c, x)
      | None \<Rightarrow>
          (let x = ''builtin'' @ itoa (length (builtinTexts c))
           in (c\<lparr>builtinTexts := builtinTexts c @ [(text, x)]\<rparr>, x)))"

definition NewCompiledTemplatesProgram ::
  "(string \<Rightarrow> string) \<Rightarrow> string \<Rightarrow> CompiledTemplatesProgram" where
  "NewCompiledTemplatesProgram quote vName =
     (let ret = \<lparr>varName = vName, imports' = [], funcs = [],
                   idents = [''t'', ''w'', ''data'', ''indata'', vName],
                   builtinTexts = []\<rparr>;
          ret1 = fst (addImport quote ret ''io'');
          ret2 = fst (addImport quote ret1
                   ''github.com/mh-cbon/template-compiler/std/text/template/parse'')
      in ret2)"

text \<open>
  The node converter (\<^verbatim>\<open>convertTplTree\<close>, not part of the sources at hand) receives the
  program and may ask it for imports and literal constants while \<^verbatim>\<open>convertTemplates\<close>
  allocates the function names. One compile request is therefore a sequence of calls of
  the three operations on one program, in any interleaving; \<open>serve_all\<close> runs such a
  sequence and collects what each call returned.
\<close>

datatype request = ReqImport string | ReqFuncName string | ReqText string

fun serve ::
  "(string \<Rightarrow> string) \<Rightarrow> CompiledTemplatesProgram \<Rightarrow> request \<Rightarrow> CompiledTemplatesProgram \<times> string" where
  "serve quote c (ReqImport pkgpath) = addImport quote c pkgpath"
| "serve quote c (ReqFuncName baseName) = makeFuncName c baseName"
| "serve quote c (ReqText text) = addBuiltintText c text"

fun serve_all ::
  "(string \<Rightarrow> string) \<Rightarrow> CompiledTemplatesProgram \<Rightarrow> request list
     \<Rightarrow> CompiledTemplatesProgram \<times> string list" where
  "serve_all quote c [] = (c, [])"
| "serve_all quote c (r # rs) =
     (let (c1, out) = serve quote c r;
          (c2, outs) = serve_all quote c1 rs
      in (c2, out # outs))"

fun is_ReqFuncName :: "request \<Rightarrow> bool" where
  "is_ReqFuncName (ReqFuncName b) = True"
| "is_ReqFuncName r = False"

fun is_ReqText :: "request \<Rightarrow> bool" where
  "is_ReqText (ReqText t) = True"
| "is_ReqText r = False"

text \<open>
  What \<^verbatim>\<open>%q\<close> yields on a string of printable ASCII characters other than the double
  quote and the backslash: the string between double quotes. It instantiates the
  \<open>quote\<close> argument in the examples, whose paths are of that kind.
\<close>

definition plain_quote :: "string \<Rightarrow> string" where
  "plain_quote s = CHR 0x22 # s @ [CHR 0x22]"

text \<open>A program state used in the examples: the reserved identifiers only.\<close>

definition c0 :: CompiledTemplatesProgram where
  "c0 = \<lparr>varName = ''v'', imports' = [], funcs = [], idents = [''t'', ''w'', ''data'', ''indata'', ''v''], builtinTexts = []\<rparr>"


section \<open>Decimal rendering\<close>

lemma digit_char_simps:
  "digit_char 0 = CHR ''0''" "digit_char (Suc 0) = CHR ''1''" "digit_char 1 = CHR ''1''" "digit_char 2 = CHR ''2''"
  "digit_char 3 = CHR ''3''" "digit_char 4 = CHR ''4''" "digit_char 5 = CHR ''5''"
  "digit_char 6 = CHR ''6''" "digit_char 7 = CHR ''7''" "digit_char 8 = CHR ''8''"
  "digit_char 9 = CHR ''9''"
  by (simp_all add: digit_char_def)

definition digit_val :: "char \<Rightarrow> nat" where
  "digit_val ch = length (takeWhile (\<lambda>x. x \<noteq> ch) ''0123456789'')"

lemma digit_val_char: "d < 10 \<Longrightarrow> digit_val (digit_char d) = d"
  by (auto simp: eval_nat_numeral less_Suc_eq digit_val_def digit_char_def)

definition atoi :: "string \<Rightarrow> nat" where "atoi s = foldl (\<lambda>a ch. 10 * a + digit_val ch) 0 s"

lemma atoi_itoa: "atoi (itoa n) = n"
proof (induction n rule: itoa.induct)
  case (1 n)
  show ?case
  proof (cases "n < 10")
    case True
    then show ?thesis by (simp add: itoa.simps [of n] atoi_def digit_val_char)
  next
    case False
    with 1 have "atoi (itoa (n div 10)) = n div 10" by simp
    with False show ?thesis by (simp add: itoa.simps [of n] atoi_def digit_val_char)
  qed
qed

lemma itoa_inj: "itoa m = itoa n \<Longrightarrow> m = n"
  by (metis atoi_itoa)


section \<open>Function name allocation\<close>

lemma loop_not_colliding: "\<not> isCollidingIdent c (makeFuncName_loop c b x i)"
  by (induction c b x i rule: makeFuncName_loop.induct) (simp add: makeFuncName_loop.simps)

lemma loop_first_free:
  "isCollidingIdent c x \<Longrightarrow>
   \<exists>k\<ge>i. makeFuncName_loop c b x i = candidate b k \<and>
          (\<forall>j. i \<le> j \<and> j < k \<longrightarrow> isCollidingIdent c (candidate b j))"
proof (induction c b x i rule: makeFuncName_loop.induct)
  case (1 c b x i)
  show ?case
  proof (cases "isCollidingIdent c (candidate b i)")
    case False
    then have "makeFuncName_loop c b (candidate b i) (i + 1) = candidate b i"
      by (subst makeFuncName_loop.simps) simp
    with 1(2) have "makeFuncName_loop c b x i = candidate b i"
      by (subst makeFuncName_loop.simps) (simp add: candidate_def)
    then show ?thesis by auto
  next
    case True
    with 1 obtain k where k: "k \<ge> i + 1" "makeFuncName_loop c b (''fn'' @ itoa i @ b) (i + 1) = candidate b k"
      "\<forall>j. i + 1 \<le> j \<and> j < k \<longrightarrow> isCollidingIdent c (candidate b j)"
      by (auto simp: candidate_def)
    have "\<forall>j. i \<le> j \<and> j < k \<longrightarrow> isCollidingIdent c (candidate b j)"
    proof (intro allI impI)
      fix j assume "i \<le> j \<and> j < k"
      then have "j = i \<or> (i + 1 \<le> j \<and> j < k)" by arith
      with True k(3) show "isCollidingIdent c (candidate b j)" by auto
    qed
    moreover from 1(2) k(2) have "makeFuncName_loop c b x i = candidate b k"
      by (subst makeFuncName_loop.simps) simp
    moreover from k(1) have "k \<ge> i" by simp
    ultimately show ?thesis by blast
  qed
qed

lemma loop_stable:
  "(\<And>y. isCollidingIdent c' y = isCollidingIdent c y) \<Longrightarrow>
   makeFuncName_loop c' b x i = makeFuncName_loop c b x i"
proof (induction c b x i rule: makeFuncName_loop.induct)
  case (1 c b x i)
  show ?case
  proof (cases "isCollidingIdent c x")
    case True
    with 1 show ?thesis
      by (simp add: makeFuncName_loop.simps [of c b x] makeFuncName_loop.simps [of c' b x])
  next
    case False
    with 1(2) show ?thesis
      by (simp add: makeFuncName_loop.simps [of c b x] makeFuncName_loop.simps [of c' b x])
  qed
qed


text \<open>
  C7: \<^verbatim>\<open>makeFuncName\<close> returns the base name itself when it collides with nothing;
  otherwise it returns the first candidate of the sequence \<^verbatim>\<open>fn0baseName\<close>,
  \<^verbatim>\<open>fn1baseName\<close>, ... that collides with nothing (every earlier candidate collides).
  The returned name never collides with the state it was resolved against, it is appended
  to the reserved identifiers and nothing else changes, and the result depends only on
  the base name and on which identifiers collide in the state.
\<close>

theorem makeFuncName_resolution:
  "(\<not> isCollidingIdent c b \<longrightarrow> snd (makeFuncName c b) = b) \<and>
   (isCollidingIdent c b \<longrightarrow>
      (\<exists>k. snd (makeFuncName c b) = candidate b k \<and>
           (\<forall>j<k. isCollidingIdent c (candidate b j)))) \<and>
   \<not> isCollidingIdent c (snd (makeFuncName c b)) \<and>
   fst (makeFuncName c b) = c\<lparr>idents := idents c @ [snd (makeFuncName c b)]\<rparr> \<and>
   isCollidingIdent (fst (makeFuncName c b)) (snd (makeFuncName c b)) \<and>
   (\<forall>c'. (\<forall>y. isCollidingIdent c' y = isCollidingIdent c y) \<longrightarrow>
         snd (makeFuncName c' b) = snd (makeFuncName c b))"
proof (intro conjI impI allI)
  assume "\<not> isCollidingIdent c b"
  then show "snd (makeFuncName c b) = b"
    by (simp add: makeFuncName_def makeFuncName_loop.simps [of c b b])
next
  assume "isCollidingIdent c b"
  from loop_first_free [OF this, of 0 b]
  show "\<exists>k. snd (makeFuncName c b) = candidate b k \<and> (\<forall>j<k. isCollidingIdent c (candidate b j))"
    by (auto simp: makeFuncName_def Let_def)
next
  show "\<not> isCollidingIdent c (snd (makeFuncName c b))"
    by (simp add: makeFuncName_def Let_def loop_not_colliding)
next
  show "fst (makeFuncName c b) = c\<lparr>idents := idents c @ [snd (makeFuncName c b)]\<rparr>"
    by (simp add: makeFuncName_def Let_def)
next
  show "isCollidingIdent (fst (makeFuncName c b)) (snd (makeFuncName c b))"
    by (simp add: makeFuncName_def Let_def isCollidingIdent_def)
next
  fix c' assume "\<forall>y. isCollidingIdent c' y = isCollidingIdent c y"
  then have "makeFuncName_loop c' b b 0 = makeFuncName_loop c b b 0"
    by (intro loop_stable) simp
  then show "snd (makeFuncName c' b) = snd (makeFuncName c b)"
    by (simp add: makeFuncName_def Let_def)
qed

theorem makeFuncName_resolution_witness:
  "isCollidingIdent c0 ''t'' \<and> \<not> isCollidingIdent c0 ''x'' \<and>
   snd (makeFuncName c0 ''x'') = ''x'' \<and>
   snd (makeFuncName c0 ''t'') = ''fn0t'' \<and>
   (\<exists>k. ''fn0t'' = candidate ''t'' k \<and> (\<forall>j<k. isCollidingIdent c0 (candidate ''t'' j))) \<and>
   \<not> isCollidingIdent c0 ''fn0t'' \<and>
   idents (fst (makeFuncName c0 ''t'')) = [''t'', ''w'', ''data'', ''indata'', ''v'', ''fn0t'']"
proof -
  have a: "isCollidingIdent c0 ''t''" and b: "\<not> isCollidingIdent c0 ''x''"
    by (simp_all add: c0_def isCollidingIdent_def)
  have c: "snd (makeFuncName c0 ''t'') = ''fn0t''"
    by (simp add: makeFuncName_def Let_def makeFuncName_loop.simps c0_def isCollidingIdent_def
        itoa.simps digit_char_simps)
  have d: "idents c0 = [''t'', ''w'', ''data'', ''indata'', ''v'']"
    by (simp add: c0_def)
  note t = makeFuncName_resolution [of c0 "''t''", unfolded c]
  note x = makeFuncName_resolution [of c0 "''x''"]
  from x b have 1: "snd (makeFuncName c0 ''x'') = ''x''" by blast
  from t a have 2: "\<exists>k. ''fn0t'' = candidate ''t'' k \<and> (\<forall>j<k. isCollidingIdent c0 (candidate ''t'' j))"
    by blast
  from t have 3: "\<not> isCollidingIdent c0 ''fn0t''" by blast
  from t have "fst (makeFuncName c0 ''t'') = c0\<lparr>idents := idents c0 @ [''fn0t'']\<rparr>" by blast
  then have 4: "idents (fst (makeFuncName c0 ''t'')) = [''t'', ''w'', ''data'', ''indata'', ''v'', ''fn0t'']"
    by (simp add: d)
  from a b c 1 2 3 4 show ?thesis by blast
qed

section \<open>Import aliases\<close>

lemma find_append_new:
  "find P xs = None \<Longrightarrow> P y \<Longrightarrow> find P (xs @ [y]) = Some y"
  by (induction xs) (auto split: if_splits)

lemma colliding_new_record:
  "isCollidingIdent (c\<lparr>imports' := imports' c @ [\<lparr>Name = None, Path = qp\<rparr>]\<rparr>) x = isCollidingIdent c x"
  by (simp add: isCollidingIdent_def list_ex_iff) 

lemma addImport_found:
  "find (\<lambda>i. Path i = quote p) (imports' c) = Some i \<Longrightarrow>
   addImport quote c p = (c, case Name i of None \<Rightarrow> filepath_Base p | Some n \<Rightarrow> n)"
  by (simp add: addImport_def Let_def split: option.splits)

lemma addImport_new_colliding:
  "find (\<lambda>i. Path i = quote p) (imports' c) = None \<Longrightarrow> isCollidingIdent c (filepath_Base p) \<Longrightarrow>
   addImport quote c p =
     (c\<lparr>imports' := imports' c @ [\<lparr>Name = Some (''alias'' @ filepath_Base p), Path = quote p\<rparr>],
         idents := idents c @ [''alias'' @ filepath_Base p]\<rparr>,
      ''alias'' @ filepath_Base p)"
  by (simp add: addImport_def Let_def colliding_new_record)

lemma addImport_new_free:
  "find (\<lambda>i. Path i = quote p) (imports' c) = None \<Longrightarrow> \<not> isCollidingIdent c (filepath_Base p) \<Longrightarrow>
   addImport quote c p =
     (c\<lparr>imports' := imports' c @ [\<lparr>Name = None, Path = quote p\<rparr>],
         idents := idents c @ [filepath_Base p]\<rparr>,
      filepath_Base p)"
  by (simp add: addImport_def Let_def colliding_new_record)

lemma addImport_idem:
  "addImport quote (fst (addImport quote c p)) p = addImport quote c p"
proof (cases "find (\<lambda>i. Path i = quote p) (imports' c)")
  case (Some i)
  then show ?thesis by (simp add: addImport_found)
next
  case None
  show ?thesis
  proof (cases "isCollidingIdent c (filepath_Base p)")
    case True
    note eq = addImport_new_colliding [of quote p c, OF None True]
    have "find (\<lambda>i. Path i = quote p) (imports' (fst (addImport quote c p)))
        = Some \<lparr>Name = Some (''alias'' @ filepath_Base p), Path = quote p\<rparr>"
      by (simp add: eq find_append_new None)
    from addImport_found [of quote p, OF this] show ?thesis by (simp add: eq)
  next
    case False
    note eq = addImport_new_free [of quote p c, OF None False]
    have "find (\<lambda>i. Path i = quote p) (imports' (fst (addImport quote c p)))
        = Some \<lparr>Name = None, Path = quote p\<rparr>"
      by (simp add: eq find_append_new None)
    from addImport_found [of quote p, OF this] show ?thesis by (simp add: eq)
  qed
qed

definition aliases_reserved :: "(string \<Rightarrow> string) \<Rightarrow> CompiledTemplatesProgram \<Rightarrow> bool" where
  "aliases_reserved quote c =
     (\<forall>p r. find (\<lambda>i. Path i = quote p) (imports' c) = Some r \<longrightarrow>
        (case Name r of None \<Rightarrow> filepath_Base p | Some n \<Rightarrow> n) \<in> set (idents c))"

lemma find_append_cases:
  "find P (xs @ [y]) = Some r \<Longrightarrow> find P xs = Some r \<or> (find P xs = None \<and> r = y \<and> P y)"
  by (induction xs) (auto split: if_splits)

lemma find_append_keep: "find P xs = Some r \<Longrightarrow> find P (xs @ ys) = Some r"
  by (induction xs) (auto split: if_splits)

lemma addImport_step:
  assumes inj: "inj quote" and J: "aliases_reserved quote c"
  shows "aliases_reserved quote (fst (addImport quote c p)) \<and>
         set (idents c) \<subseteq> set (idents (fst (addImport quote c p))) \<and>
         snd (addImport quote c p) \<in> set (idents (fst (addImport quote c p)))"
proof (cases "find (\<lambda>i. Path i = quote p) (imports' c)")
  case (Some i)
  with J have "(case Name i of None \<Rightarrow> filepath_Base p | Some n \<Rightarrow> n) \<in> set (idents c)"
    by (simp add: aliases_reserved_def)
  with J show ?thesis by (simp add: addImport_found [of quote p, OF Some])
next
  case None
  show ?thesis
  proof (cases "isCollidingIdent c (filepath_Base p)")
    case True
    note eq = addImport_new_colliding [of quote p c, OF None True]
    have "aliases_reserved quote (fst (addImport quote c p))"
      unfolding aliases_reserved_def
    proof (intro allI impI)
      fix p' r
      assume "find (\<lambda>i. Path i = quote p') (imports' (fst (addImport quote c p))) = Some r"
      then have "find (\<lambda>i. Path i = quote p')
          (imports' c @ [\<lparr>Name = Some (''alias'' @ filepath_Base p), Path = quote p\<rparr>]) = Some r"
        by (simp add: eq)
      from find_append_cases [OF this] J
      show "(case Name r of None \<Rightarrow> filepath_Base p' | Some n \<Rightarrow> n)
          \<in> set (idents (fst (addImport quote c p)))"
        by (auto simp: eq aliases_reserved_def)
    qed
    then show ?thesis by (auto simp: eq)
  next
    case False
    note eq = addImport_new_free [of quote p c, OF None False]
    have "aliases_reserved quote (fst (addImport quote c p))"
      unfolding aliases_reserved_def
    proof (intro allI impI)
      fix p' r
      assume "find (\<lambda>i. Path i = quote p') (imports' (fst (addImport quote c p))) = Some r"
      then have "find (\<lambda>i. Path i = quote p')
          (imports' c @ [\<lparr>Name = None, Path = quote p\<rparr>]) = Some r"
        by (simp add: eq)
      from find_append_cases [OF this] J inj
      show "(case Name r of None \<Rightarrow> filepath_Base p' | Some n \<Rightarrow> n)
          \<in> set (idents (fst (addImport quote c p)))"
        by (auto simp: eq aliases_reserved_def dest: injD)
    qed
    then show ?thesis by (auto simp: eq)
  qed
qed

lemma makeFuncName_step:
  assumes J: "aliases_reserved quote c"
  shows "aliases_reserved quote (fst (makeFuncName c b)) \<and>
         set (idents c) \<subseteq> set (idents (fst (makeFuncName c b))) \<and>
         snd (makeFuncName c b) \<in> set (idents (fst (makeFuncName c b))) \<and>
         snd (makeFuncName c b) \<notin> set (idents c)"
proof -
  have "\<not> isCollidingIdent c (makeFuncName_loop c b b 0)" by (rule loop_not_colliding)
  then have "makeFuncName_loop c b b 0 \<notin> set (idents c)" by (simp add: isCollidingIdent_def)
  with J show ?thesis by (auto simp: makeFuncName_def Let_def aliases_reserved_def)
qed

lemma addBuiltintText_namespace:
  "imports' (fst (addBuiltintText c t)) = imports' c \<and> idents (fst (addBuiltintText c t)) = idents c"
  by (simp add: addBuiltintText_def Let_def split: option.splits)

lemma serve_step:
  assumes inj: "inj quote" and J: "aliases_reserved quote c"
  shows "aliases_reserved quote (fst (serve quote c r)) \<and>
         set (idents c) \<subseteq> set (idents (fst (serve quote c r))) \<and>
         (\<not> is_ReqText r \<longrightarrow> snd (serve quote c r) \<in> set (idents (fst (serve quote c r)))) \<and>
         (is_ReqFuncName r \<longrightarrow> snd (serve quote c r) \<notin> set (idents c))"
proof (cases r)
  case (ReqImport p)
  with addImport_step [OF inj J, of p] show ?thesis by simp
next
  case (ReqFuncName b)
  with makeFuncName_step [OF J, of b] show ?thesis by simp
next
  case (ReqText t)
  with J addBuiltintText_namespace [of c t] show ?thesis
    by (simp add: aliases_reserved_def)
qed

lemma serve_all_length: "length (snd (serve_all quote c rs)) = length rs"
proof (induction rs arbitrary: c)
  case Nil
  show ?case by simp
next
  case (Cons r rs)
  obtain c1 out where s: "serve quote c r = (c1, out)" by (cases "serve quote c r")
  obtain c2 outs where t: "serve_all quote c1 rs = (c2, outs)" by (cases "serve_all quote c1 rs")
  from Cons [of c1] t show ?case by (simp add: s)
qed

lemma serve_all_fresh:
  assumes inj: "inj quote"
  shows "aliases_reserved quote c \<Longrightarrow>
     aliases_reserved quote (fst (serve_all quote c rs)) \<and>
     set (idents c) \<subseteq> set (idents (fst (serve_all quote c rs))) \<and>
     (\<forall>i<length rs.
        (\<not> is_ReqText (rs ! i) \<longrightarrow>
           snd (serve_all quote c rs) ! i \<in> set (idents (fst (serve_all quote c rs)))) \<and>
        (is_ReqFuncName (rs ! i) \<longrightarrow>
           snd (serve_all quote c rs) ! i \<notin> set (idents c) \<and>
           (\<forall>j<i. \<not> is_ReqText (rs ! j) \<longrightarrow>
              snd (serve_all quote c rs) ! j \<noteq> snd (serve_all quote c rs) ! i)))"
proof (induction rs arbitrary: c)
  case Nil
  then show ?case by simp
next
  case (Cons r rs)
  obtain c1 out where s: "serve quote c r = (c1, out)" by (cases "serve quote c r")
  obtain c2 outs where t: "serve_all quote c1 rs = (c2, outs)" by (cases "serve_all quote c1 rs")
  from serve_step [OF inj Cons.prems, of r] s
  have J1: "aliases_reserved quote c1" and sub1: "set (idents c) \<subseteq> set (idents c1)"
    and in1: "\<not> is_ReqText r \<Longrightarrow> out \<in> set (idents c1)"
    and new1: "is_ReqFuncName r \<Longrightarrow> out \<notin> set (idents c)"
    by auto
  from Cons.IH [OF J1] t
  have J2: "aliases_reserved quote c2" and sub2: "set (idents c1) \<subseteq> set (idents c2)"
    and in2: "\<And>i. i < length rs \<Longrightarrow> \<not> is_ReqText (rs ! i) \<Longrightarrow> outs ! i \<in> set (idents c2)"
    and new2: "\<And>i. i < length rs \<Longrightarrow> is_ReqFuncName (rs ! i) \<Longrightarrow> outs ! i \<notin> set (idents c1)"
    and old2: "\<And>i j. i < length rs \<Longrightarrow> is_ReqFuncName (rs ! i) \<Longrightarrow> j < i \<Longrightarrow>
                 \<not> is_ReqText (rs ! j) \<Longrightarrow> outs ! j \<noteq> outs ! i"
    by auto
  have eq: "serve_all quote c (r # rs) = (c2, out # outs)"
    by (simp add: s t)
  have "\<forall>i<length (r # rs).
        (\<not> is_ReqText ((r # rs) ! i) \<longrightarrow> (out # outs) ! i \<in> set (idents c2)) \<and>
        (is_ReqFuncName ((r # rs) ! i) \<longrightarrow>
           (out # outs) ! i \<notin> set (idents c) \<and>
           (\<forall>j<i. \<not> is_ReqText ((r # rs) ! j) \<longrightarrow> (out # outs) ! j \<noteq> (out # outs) ! i))"
  proof (intro allI impI)
    fix i assume i: "i < length (r # rs)"
    show "(\<not> is_ReqText ((r # rs) ! i) \<longrightarrow> (out # outs) ! i \<in> set (idents c2)) \<and>
        (is_ReqFuncName ((r # rs) ! i) \<longrightarrow>
           (out # outs) ! i \<notin> set (idents c) \<and>
           (\<forall>j<i. \<not> is_ReqText ((r # rs) ! j) \<longrightarrow> (out # outs) ! j \<noteq> (out # outs) ! i))"
    proof (cases i)
      case 0
      with in1 new1 sub2 show ?thesis by auto
    next
      case (Suc k)
      with i have k: "k < length rs" by simp
      have a: "\<not> is_ReqText (rs ! k) \<longrightarrow> outs ! k \<in> set (idents c2)"
        using in2 [OF k] by blast
      have b: "is_ReqFuncName (rs ! k) \<longrightarrow> outs ! k \<notin> set (idents c)"
        using new2 [OF k] sub1 by blast
      have c: "is_ReqFuncName (rs ! k) \<longrightarrow>
          (\<forall>j<Suc k. \<not> is_ReqText ((r # rs) ! j) \<longrightarrow> (out # outs) ! j \<noteq> outs ! k)"
      proof (intro impI allI)
        fix j assume f: "is_ReqFuncName (rs ! k)" and j: "j < Suc k"
          and nt: "\<not> is_ReqText ((r # rs) ! j)"
        show "(out # outs) ! j \<noteq> outs ! k"
        proof (cases j)
          case 0
          with nt in1 new2 [OF k f] show ?thesis by auto
        next
          case (Suc m)
          with j nt old2 [OF k f, of m] show ?thesis by simp
        qed
      qed
      from a b c Suc show ?thesis by simp
    qed
  qed
  with J2 sub1 sub2 show ?case by (simp only: eq fst_conv snd_conv) blast
qed

definition prog0 :: CompiledTemplatesProgram where
  "prog0 = NewCompiledTemplatesProgram plain_quote ''compiledTemplates''"

definition prog_io :: CompiledTemplatesProgram where
  "prog_io = fst (addImport plain_quote prog0 ''x/io'')"

lemma plain_quote_inj: "inj plain_quote"
  by (rule injI) (simp add: plain_quote_def)

lemma base_simps:
  "filepath_Base ''io'' = ''io''"
  "filepath_Base ''x/io'' = ''io''"
  "filepath_Base ''y/io'' = ''io''"
  "filepath_Base ''github.com/mh-cbon/template-compiler/std/text/template/parse'' = ''parse''"
  by (simp_all add: filepath_Base_def is_sep_def Let_def)

lemma prog0_eq:
  "prog0 = \<lparr>varName = ''compiledTemplates'',
      imports' = [\<lparr>Name = None, Path = plain_quote ''io''\<rparr>,
                  \<lparr>Name = None, Path = plain_quote
                     ''github.com/mh-cbon/template-compiler/std/text/template/parse''\<rparr>],
      funcs = [],
      idents = [''t'', ''w'', ''data'', ''indata'', ''compiledTemplates'', ''io'', ''parse''],
      builtinTexts = []\<rparr>"
  by (simp add: prog0_def NewCompiledTemplatesProgram_def addImport_def Let_def base_simps
      isCollidingIdent_def plain_quote_def)

lemma prog_io_eq:
  "prog_io = \<lparr>varName = ''compiledTemplates'',
      imports' = [\<lparr>Name = None, Path = plain_quote ''io''\<rparr>,
                  \<lparr>Name = None, Path = plain_quote
                     ''github.com/mh-cbon/template-compiler/std/text/template/parse''\<rparr>,
                  \<lparr>Name = Some ''aliasio'', Path = plain_quote ''x/io''\<rparr>],
      funcs = [],
      idents = [''t'', ''w'', ''data'', ''indata'', ''compiledTemplates'', ''io'', ''parse'',
                ''aliasio''],
      builtinTexts = []\<rparr>"
  by (simp add: prog_io_def prog0_eq addImport_def Let_def base_simps
      isCollidingIdent_def plain_quote_def)

lemma addImport_registers:
  "\<exists>i. find (\<lambda>i. Path i = quote p) (imports' (fst (addImport quote c p))) = Some i \<and>
       (case Name i of None \<Rightarrow> filepath_Base p | Some n \<Rightarrow> n) = snd (addImport quote c p)"
proof (cases "find (\<lambda>i. Path i = quote p) (imports' c)")
  case (Some i)
  then show ?thesis by (simp add: addImport_found [of quote p, OF Some])
next
  case None
  show ?thesis
  proof (cases "isCollidingIdent c (filepath_Base p)")
    case True
    show ?thesis
      by (simp add: addImport_new_colliding [of quote p c, OF None True] find_append_new None)
  next
    case False
    show ?thesis
      by (simp add: addImport_new_free [of quote p c, OF None False] find_append_new None)
  qed
qed

lemma addImport_keeps_records:
  "find P (imports' c) = Some i \<Longrightarrow> find P (imports' (fst (addImport quote c p))) = Some i"
proof (cases "find (\<lambda>i. Path i = quote p) (imports' c)")
  case (Some j)
  assume "find P (imports' c) = Some i"
  then show ?thesis by (simp add: addImport_found [of quote p, OF Some])
next
  case None
  assume f: "find P (imports' c) = Some i"
  show ?thesis
  proof (cases "isCollidingIdent c (filepath_Base p)")
    case True
    from f show ?thesis
      by (simp add: addImport_new_colliding [of quote p c, OF None True] find_append_keep)
  next
    case False
    from f show ?thesis
      by (simp add: addImport_new_free [of quote p c, OF None False] find_append_keep)
  qed
qed

lemma serve_keeps_records:
  "find P (imports' c) = Some i \<Longrightarrow> find P (imports' (fst (serve quote c r))) = Some i"
proof (cases r)
  case (ReqImport p)
  assume "find P (imports' c) = Some i"
  with ReqImport show ?thesis by (simp add: addImport_keeps_records)
next
  case (ReqFuncName b)
  assume "find P (imports' c) = Some i"
  with ReqFuncName show ?thesis by (simp add: makeFuncName_def Let_def)
next
  case (ReqText t)
  assume "find P (imports' c) = Some i"
  with ReqText show ?thesis by (simp add: addBuiltintText_namespace)
qed

lemma serve_all_keeps_records:
  "find P (imports' c) = Some i \<Longrightarrow> find P (imports' (fst (serve_all quote c rs))) = Some i"
proof (induction rs arbitrary: c)
  case Nil
  then show ?case by simp
next
  case (Cons r rs)
  obtain c1 out where s: "serve quote c r = (c1, out)" by (cases "serve quote c r")
  obtain c2 outs where t: "serve_all quote c1 rs = (c2, outs)" by (cases "serve_all quote c1 rs")
  from serve_keeps_records [OF Cons.prems, of quote r] s
  have "find P (imports' c1) = Some i" by simp
  from Cons.IH [OF this] t show ?case by (simp add: s)
qed

text \<open>
  C6 (as amended): \<^verbatim>\<open>addImport\<close> is idempotent: once a path has been imported, a
  later call with the same path string, whatever calls came between, adds no record,
  changes nothing and returns the alias of the first call. For a new path whose last
  segment collides, the alias is the segment prefixed with \<^verbatim>\<open>alias\<close>; it is recorded as the
  import's name and as a reserved identifier without a second collision check. For a new
  path whose last segment is free, the alias is the segment itself.
\<close>

theorem addImport_contract:
  "(\<forall>rs. addImport quote (fst (serve_all quote (fst (addImport quote c p)) rs)) p =
          (fst (serve_all quote (fst (addImport quote c p)) rs), snd (addImport quote c p))) \<and>
   (find (\<lambda>i. Path i = quote p) (imports' c) = None \<longrightarrow>
      (isCollidingIdent c (filepath_Base p) \<longrightarrow>
         addImport quote c p =
           (c\<lparr>imports' := imports' c @
                  [\<lparr>Name = Some (''alias'' @ filepath_Base p), Path = quote p\<rparr>],
               idents := idents c @ [''alias'' @ filepath_Base p]\<rparr>,
            ''alias'' @ filepath_Base p)) \<and>
      (\<not> isCollidingIdent c (filepath_Base p) \<longrightarrow>
         addImport quote c p =
           (c\<lparr>imports' := imports' c @ [\<lparr>Name = None, Path = quote p\<rparr>],
               idents := idents c @ [filepath_Base p]\<rparr>,
            filepath_Base p)))"
proof (intro conjI allI impI)
  fix rs
  from addImport_registers [of quote p c] obtain i where
    i: "find (\<lambda>i. Path i = quote p) (imports' (fst (addImport quote c p))) = Some i"
    and a: "(case Name i of None \<Rightarrow> filepath_Base p | Some n \<Rightarrow> n) = snd (addImport quote c p)"
    by blast
  from serve_all_keeps_records [OF i, of quote rs]
  have "find (\<lambda>i. Path i = quote p)
          (imports' (fst (serve_all quote (fst (addImport quote c p)) rs))) = Some i" .
  from addImport_found [of quote p, OF this] a
  show "addImport quote (fst (serve_all quote (fst (addImport quote c p)) rs)) p =
          (fst (serve_all quote (fst (addImport quote c p)) rs), snd (addImport quote c p))"
    by simp
next
  assume "find (\<lambda>i. Path i = quote p) (imports' c) = None" "isCollidingIdent c (filepath_Base p)"
  then show "addImport quote c p =
           (c\<lparr>imports' := imports' c @
                  [\<lparr>Name = Some (''alias'' @ filepath_Base p), Path = quote p\<rparr>],
               idents := idents c @ [''alias'' @ filepath_Base p]\<rparr>,
            ''alias'' @ filepath_Base p)"
    by (rule addImport_new_colliding)
next
  assume "find (\<lambda>i. Path i = quote p) (imports' c) = None" "\<not> isCollidingIdent c (filepath_Base p)"
  then show "addImport quote c p =
           (c\<lparr>imports' := imports' c @ [\<lparr>Name = None, Path = quote p\<rparr>],
               idents := idents c @ [filepath_Base p]\<rparr>,
            filepath_Base p)"
    by (rule addImport_new_free)
qed

theorem addImport_contract_witness:
  "find (\<lambda>i. Path i = plain_quote ''x/io'') (imports' prog0) = None \<and>
   isCollidingIdent prog0 (filepath_Base ''x/io'') \<and>
   addImport plain_quote prog0 ''x/io'' = (prog_io, ''aliasio'') \<and>
   addImport plain_quote prog_io ''x/io'' = (prog_io, ''aliasio'') \<and>
   find (\<lambda>i. Path i = plain_quote ''x/y'') (imports' prog0) = None \<and>
   \<not> isCollidingIdent prog0 (filepath_Base ''x/y'') \<and>
   snd (addImport plain_quote prog0 ''x/y'') = filepath_Base ''x/y''"
proof -
  have a: "find (\<lambda>i. Path i = plain_quote ''x/io'') (imports' prog0) = None"
    and b: "isCollidingIdent prog0 (filepath_Base ''x/io'')"
    and c: "find (\<lambda>i. Path i = plain_quote ''x/y'') (imports' prog0) = None"
    and d: "\<not> isCollidingIdent prog0 (filepath_Base ''x/y'')"
    by (simp_all add: prog0_eq plain_quote_def base_simps isCollidingIdent_def
        filepath_Base_def is_sep_def Let_def)
  note t = addImport_contract [of plain_quote prog0 "''x/io''"]
  from t a b have e: "addImport plain_quote prog0 ''x/io'' = (prog_io, ''aliasio'')"
    by (simp add: prog_io_def base_simps)
  from t have "addImport plain_quote
      (fst (serve_all plain_quote (fst (addImport plain_quote prog0 ''x/io'')) [])) ''x/io'' =
      (fst (serve_all plain_quote (fst (addImport plain_quote prog0 ''x/io'')) []),
       snd (addImport plain_quote prog0 ''x/io''))"
    by blast
  then have f: "addImport plain_quote prog_io ''x/io'' = (prog_io, ''aliasio'')"
    by (simp add: e)
  from addImport_contract [of plain_quote prog0 "''x/y''"] c d
  have g: "snd (addImport plain_quote prog0 ''x/y'') = filepath_Base ''x/y''"
    by simp
  from a b c d e f g show ?thesis by blast
qed

text \<open>
  The prefixed alias is not checked again: after \<^verbatim>\<open>x/io\<close> has taken \<^verbatim>\<open>aliasio\<close>, the new
  path \<^verbatim>\<open>y/io\<close> is given \<^verbatim>\<open>aliasio\<close> too, an alias already in use.
\<close>

theorem addImport_alias_counterexample:
  "find (\<lambda>i. Path i = plain_quote ''y/io'') (imports' prog_io) = None \<and>
   isCollidingIdent prog_io (filepath_Base ''y/io'') \<and>
   snd (addImport plain_quote prog_io ''y/io'') = ''alias'' @ filepath_Base ''y/io'' \<and>
   isCollidingIdent prog_io (snd (addImport plain_quote prog_io ''y/io''))"
  by (simp add: prog_io_eq addImport_def Let_def base_simps isCollidingIdent_def plain_quote_def)

section \<open>Identifiers of one compile request\<close>

lemma New_reserved:
  assumes inj: "inj quote"
  shows "aliases_reserved quote (NewCompiledTemplatesProgram quote v) \<and>
         {''t'', ''w'', ''data'', ''indata'', v} \<subseteq> set (idents (NewCompiledTemplatesProgram quote v))"
proof -
  define ret where "ret = \<lparr>varName = v, imports' = [], funcs = [],
      idents = [''t'', ''w'', ''data'', ''indata'', v], builtinTexts = []\<rparr>"
  define ret1 where "ret1 = fst (addImport quote ret ''io'')"
  define ret2 where "ret2 = fst (addImport quote ret1
      ''github.com/mh-cbon/template-compiler/std/text/template/parse'')"
  have new: "NewCompiledTemplatesProgram quote v = ret2"
    by (simp add: NewCompiledTemplatesProgram_def Let_def ret_def ret1_def ret2_def)
  have J0: "aliases_reserved quote ret" by (simp add: aliases_reserved_def ret_def)
  from addImport_step [OF inj J0, of "''io''"]
  have J1: "aliases_reserved quote ret1" and s1: "set (idents ret) \<subseteq> set (idents ret1)"
    by (simp_all add: ret1_def)
  from addImport_step [OF inj J1, of "''github.com/mh-cbon/template-compiler/std/text/template/parse''"]
  have J2: "aliases_reserved quote ret2" and s2: "set (idents ret1) \<subseteq> set (idents ret2)"
    by (simp_all add: ret2_def)
  have "{''t'', ''w'', ''data'', ''indata'', v} \<subseteq> set (idents ret)" by (simp add: ret_def)
  with s1 s2 have "{''t'', ''w'', ''data'', ''indata'', v} \<subseteq> set (idents ret2)" by blast
  with J2 new show ?thesis by simp
qed

text \<open>
  C1 (as amended): in any compile request, whatever the interleaving of import, function
  name and literal requests, every identifier returned by \<^verbatim>\<open>makeFuncName\<close> differs from the
  reserved identifiers \<^verbatim>\<open>t\<close>, \<^verbatim>\<open>w\<close>, \<^verbatim>\<open>data\<close>, \<^verbatim>\<open>indata\<close> and the registry variable name, from
  the aliases of the imports made by the constructor, and from every import alias and
  every function identifier returned earlier in the request. The function identifiers
  are therefore pairwise distinct. The statement is about the identifiers as
  \<^verbatim>\<open>makeFuncName\<close> returns them.
\<close>

theorem function_names_fresh:
  assumes inj: "inj quote"
  shows "\<forall>i<length rs. is_ReqFuncName (rs ! i) \<longrightarrow>
      snd (serve_all quote (NewCompiledTemplatesProgram quote v) rs) ! i
         \<notin> set (idents (NewCompiledTemplatesProgram quote v)) \<and>
      snd (serve_all quote (NewCompiledTemplatesProgram quote v) rs) ! i
         \<notin> {''t'', ''w'', ''data'', ''indata'', v} \<and>
      (\<forall>j<i. \<not> is_ReqText (rs ! j) \<longrightarrow>
         snd (serve_all quote (NewCompiledTemplatesProgram quote v) rs) ! j \<noteq>
         snd (serve_all quote (NewCompiledTemplatesProgram quote v) rs) ! i)"
proof (intro allI impI)
  fix i assume i: "i < length rs" and f: "is_ReqFuncName (rs ! i)"
  let ?c = "NewCompiledTemplatesProgram quote v"
  from New_reserved [OF inj, of v]
  have J: "aliases_reserved quote ?c"
    and r: "{''t'', ''w'', ''data'', ''indata'', v} \<subseteq> set (idents ?c)" by blast+
  from serve_all_fresh [OF inj J, of rs] i f
  have a: "snd (serve_all quote ?c rs) ! i \<notin> set (idents ?c)"
    and b: "\<forall>j<i. \<not> is_ReqText (rs ! j) \<longrightarrow>
         snd (serve_all quote ?c rs) ! j \<noteq> snd (serve_all quote ?c rs) ! i"
    by blast+
  from a r have "snd (serve_all quote ?c rs) ! i \<notin> {''t'', ''w'', ''data'', ''indata'', v}"
    by blast
  with a b show "snd (serve_all quote ?c rs) ! i \<notin> set (idents ?c) \<and>
      snd (serve_all quote ?c rs) ! i \<notin> {''t'', ''w'', ''data'', ''indata'', v} \<and>
      (\<forall>j<i. \<not> is_ReqText (rs ! j) \<longrightarrow>
         snd (serve_all quote ?c rs) ! j \<noteq> snd (serve_all quote ?c rs) ! i)"
    by blast
qed

definition reqs0 :: "request list" where
  "reqs0 = [ReqFuncName ''io'', ReqImport ''x/io'', ReqFuncName ''aliasio'', ReqFuncName ''io'']"

lemma reqs0_outs:
  "snd (serve_all plain_quote prog0 reqs0) = [''fn0io'', ''aliasio'', ''fn0aliasio'', ''fn1io'']"
  by (simp add: reqs0_def prog0_eq addImport_def makeFuncName_def Let_def base_simps
      isCollidingIdent_def plain_quote_def makeFuncName_loop.simps itoa.simps digit_char_simps)

theorem function_names_fresh_witness:
  "inj plain_quote \<and> (3::nat) < length reqs0 \<and> is_ReqFuncName (reqs0 ! 3) \<and>
   \<not> is_ReqText (reqs0 ! 0) \<and>
   snd (serve_all plain_quote prog0 reqs0) ! 3 = ''fn1io'' \<and>
   snd (serve_all plain_quote prog0 reqs0) ! 0 = ''fn0io'' \<and>
   snd (serve_all plain_quote prog0 reqs0) ! 3 \<notin> {''t'', ''w'', ''data'', ''indata'', ''compiledTemplates''} \<and>
   snd (serve_all plain_quote prog0 reqs0) ! 0 \<noteq> snd (serve_all plain_quote prog0 reqs0) ! 3"
proof -
  have l: "(3::nat) < length reqs0" and f: "is_ReqFuncName (reqs0 ! 3)"
    and t: "\<not> is_ReqText (reqs0 ! 0)"
    by (simp_all add: reqs0_def)
  have o3: "snd (serve_all plain_quote prog0 reqs0) ! 3 = ''fn1io''"
    and o0: "snd (serve_all plain_quote prog0 reqs0) ! 0 = ''fn0io''"
    by (simp_all add: reqs0_outs)
  from function_names_fresh [OF plain_quote_inj, of reqs0 "''compiledTemplates''"] l f
  have "snd (serve_all plain_quote prog0 reqs0) ! 3
          \<notin> {''t'', ''w'', ''data'', ''indata'', ''compiledTemplates''} \<and>
        (\<forall>j<3. \<not> is_ReqText (reqs0 ! j) \<longrightarrow>
           snd (serve_all plain_quote prog0 reqs0) ! j \<noteq> snd (serve_all plain_quote prog0 reqs0) ! 3)"
    unfolding prog0_def by blast
  with t have "snd (serve_all plain_quote prog0 reqs0) ! 3
          \<notin> {''t'', ''w'', ''data'', ''indata'', ''compiledTemplates''} \<and>
        snd (serve_all plain_quote prog0 reqs0) ! 0 \<noteq> snd (serve_all plain_quote prog0 reqs0) ! 3"
    by auto
  with plain_quote_inj l f t o3 o0 show ?thesis by blast
qed

text \<open>
  The identifiers of a request can repeat: two imports whose last segment is \<^verbatim>\<open>io\<close>, made
  after the constructor has imported \<^verbatim>\<open>io\<close>, both get the alias \<^verbatim>\<open>aliasio\<close>, which is then
  twice among the reserved identifiers.
\<close>

theorem identifiers_duplicate_counterexample:
  "snd (serve_all plain_quote prog0 [ReqImport ''x/io'', ReqImport ''y/io'']) = [''aliasio'', ''aliasio''] \<and>
   \<not> distinct (idents (fst (serve_all plain_quote prog0 [ReqImport ''x/io'', ReqImport ''y/io''])))"
  by (simp add: prog0_eq addImport_def Let_def base_simps isCollidingIdent_def plain_quote_def)

section \<open>The literal table\<close>

fun req_texts :: "request list \<Rightarrow> string list" where
  "req_texts [] = []"
| "req_texts (ReqText t # rs) = t # req_texts rs"
| "req_texts (r # rs) = req_texts rs"

definition builtin_name :: "nat \<Rightarrow> string" where
  "builtin_name k = ''builtin'' @ itoa k"

definition literals_numbered :: "CompiledTemplatesProgram \<Rightarrow> bool" where
  "literals_numbered c =
     (distinct (map fst (builtinTexts c)) \<and>
      map snd (builtinTexts c) = map builtin_name [0..<length (builtinTexts c)])"

lemma builtin_name_inj: "builtin_name j = builtin_name k \<Longrightarrow> j = k"
  by (simp add: builtin_name_def itoa_inj)

lemma same_value_same_key:
  "distinct (map snd xs) \<Longrightarrow> (a, n) \<in> set xs \<Longrightarrow> (b, n) \<in> set xs \<Longrightarrow> a = b"
  by (induction xs) (auto simp: image_iff)

lemma numbered_names_distinct:
  assumes "literals_numbered c"
  shows "distinct (map snd (builtinTexts c))"
proof -
  have "inj_on builtin_name (set [0..<length (builtinTexts c)])"
    by (rule inj_onI) (rule builtin_name_inj)
  then have "distinct (map builtin_name [0..<length (builtinTexts c)])"
    by (simp add: distinct_map)
  with assms show ?thesis by (simp add: literals_numbered_def)
qed

lemma numbered_injective:
  assumes "literals_numbered c"
    and "map_of (builtinTexts c) t = Some n" and "map_of (builtinTexts c) u = Some n"
  shows "t = u"
proof -
  from assms(2,3) have "(t, n) \<in> set (builtinTexts c)" "(u, n) \<in> set (builtinTexts c)"
    by (auto dest: map_of_SomeD)
  with numbered_names_distinct [OF assms(1)] show ?thesis by (rule same_value_same_key)
qed

lemma addBuiltintText_known:
  "map_of (builtinTexts c) t = Some x \<Longrightarrow> addBuiltintText c t = (c, x)"
  by (simp add: addBuiltintText_def)

lemma addBuiltintText_fresh:
  "map_of (builtinTexts c) t = None \<Longrightarrow>
   addBuiltintText c t =
     (c\<lparr>builtinTexts := builtinTexts c @ [(t, builtin_name (length (builtinTexts c)))]\<rparr>,
      builtin_name (length (builtinTexts c)))"
  by (simp add: addBuiltintText_def Let_def builtin_name_def)

lemma addBuiltintText_step:
  assumes "literals_numbered c"
  shows "literals_numbered (fst (addBuiltintText c t)) \<and>
         map_of (builtinTexts (fst (addBuiltintText c t))) t = Some (snd (addBuiltintText c t)) \<and>
         set (map fst (builtinTexts (fst (addBuiltintText c t)))) =
           insert t (set (map fst (builtinTexts c))) \<and>
         (\<forall>u n. map_of (builtinTexts c) u = Some n \<longrightarrow>
                map_of (builtinTexts (fst (addBuiltintText c t))) u = Some n)"
proof (cases "map_of (builtinTexts c) t")
  case (Some x)
  then have "t \<in> set (map fst (builtinTexts c))"
    by (auto dest: map_of_SomeD simp: image_iff intro: bexI [of _ "(t, x)"])
  with assms Some show ?thesis by (auto simp: addBuiltintText_known [OF Some])
next
  case None
  then have "t \<notin> set (map fst (builtinTexts c))" by (simp add: map_of_eq_None_iff)
  with assms have "literals_numbered (fst (addBuiltintText c t))"
    by (simp add: addBuiltintText_fresh [OF None] literals_numbered_def)
  moreover have "\<forall>u n. map_of (builtinTexts c) u = Some n \<longrightarrow>
      map_of (builtinTexts (fst (addBuiltintText c t))) u = Some n"
    by (simp add: addBuiltintText_fresh [OF None] map_add_Some_iff)
  ultimately show ?thesis using None
    by (simp add: addBuiltintText_fresh [OF None] map_add_Some_iff)
qed

lemma addImport_literals: "builtinTexts (fst (addImport quote c p)) = builtinTexts c"
  by (simp add: addImport_def Let_def split: option.splits)

lemma makeFuncName_literals: "builtinTexts (fst (makeFuncName c b)) = builtinTexts c"
  by (simp add: makeFuncName_def Let_def)

lemma serve_literals:
  assumes "literals_numbered c"
  shows "literals_numbered (fst (serve quote c r)) \<and>
         set (map fst (builtinTexts (fst (serve quote c r)))) =
           set (map fst (builtinTexts c)) \<union> set (req_texts [r]) \<and>
         (\<forall>u n. map_of (builtinTexts c) u = Some n \<longrightarrow>
                map_of (builtinTexts (fst (serve quote c r))) u = Some n) \<and>
         (\<forall>t. r = ReqText t \<longrightarrow>
            map_of (builtinTexts (fst (serve quote c r))) t = Some (snd (serve quote c r)))"
proof (cases r)
  case (ReqImport p)
  have "literals_numbered (fst (addImport quote c p))"
    using assms by (simp add: literals_numbered_def addImport_literals)
  with ReqImport show ?thesis by (simp add: addImport_literals)
next
  case (ReqFuncName b)
  have "literals_numbered (fst (makeFuncName c b))"
    using assms by (simp add: literals_numbered_def makeFuncName_literals)
  with ReqFuncName show ?thesis by (simp add: makeFuncName_literals)
next
  case (ReqText t)
  with addBuiltintText_step [OF assms, of t] show ?thesis by auto
qed

lemma serve_all_literals:
  "literals_numbered c \<Longrightarrow>
     literals_numbered (fst (serve_all quote c rs)) \<and>
     set (map fst (builtinTexts (fst (serve_all quote c rs)))) =
       set (map fst (builtinTexts c)) \<union> set (req_texts rs) \<and>
     (\<forall>u n. map_of (builtinTexts c) u = Some n \<longrightarrow>
            map_of (builtinTexts (fst (serve_all quote c rs))) u = Some n) \<and>
     (\<forall>i<length rs. \<forall>t. rs ! i = ReqText t \<longrightarrow>
        map_of (builtinTexts (fst (serve_all quote c rs))) t = Some (snd (serve_all quote c rs) ! i))"
proof (induction rs arbitrary: c)
  case Nil
  then show ?case by simp
next
  case (Cons r rs)
  obtain c1 out where s: "serve quote c r = (c1, out)" by (cases "serve quote c r")
  obtain c2 outs where t: "serve_all quote c1 rs = (c2, outs)" by (cases "serve_all quote c1 rs")
  have eq: "serve_all quote c (r # rs) = (c2, out # outs)" by (simp add: s t)
  from serve_literals [OF Cons.prems, of quote r] s
  have n1: "literals_numbered c1"
    and k1: "set (map fst (builtinTexts c1)) = set (map fst (builtinTexts c)) \<union> set (req_texts [r])"
    and m1: "\<And>u n. map_of (builtinTexts c) u = Some n \<Longrightarrow> map_of (builtinTexts c1) u = Some n"
    and o1: "\<And>t. r = ReqText t \<Longrightarrow> map_of (builtinTexts c1) t = Some out"
    by auto
  from Cons.IH [OF n1] t
  have n2: "literals_numbered c2"
    and k2: "set (map fst (builtinTexts c2)) = set (map fst (builtinTexts c1)) \<union> set (req_texts rs)"
    and m2: "\<And>u n. map_of (builtinTexts c1) u = Some n \<Longrightarrow> map_of (builtinTexts c2) u = Some n"
    and o2: "\<And>i t. i < length rs \<Longrightarrow> rs ! i = ReqText t \<Longrightarrow> map_of (builtinTexts c2) t = Some (outs ! i)"
    by auto
  have texts: "set (req_texts (r # rs)) = set (req_texts [r]) \<union> set (req_texts rs)"
    by (cases r) auto
  have "\<forall>i<length (r # rs). \<forall>t. (r # rs) ! i = ReqText t \<longrightarrow>
          map_of (builtinTexts c2) t = Some ((out # outs) ! i)"
  proof (intro allI impI)
    fix i t assume i: "i < length (r # rs)" and rt: "(r # rs) ! i = ReqText t"
    show "map_of (builtinTexts c2) t = Some ((out # outs) ! i)"
    proof (cases i)
      case 0
      with rt o1 m2 show ?thesis by simp
    next
      case (Suc k)
      with i rt o2 [of k t] show ?thesis by simp
    qed
  qed
  moreover from k1 k2 texts
  have "set (map fst (builtinTexts c2)) = set (map fst (builtinTexts c)) \<union> set (req_texts (r # rs))"
    by blast
  moreover from m1 m2
  have "\<forall>u n. map_of (builtinTexts c) u = Some n \<longrightarrow> map_of (builtinTexts c2) u = Some n"
    by blast
  ultimately show ?case using n2 by (simp only: eq fst_conv snd_conv)
qed

lemma serve_all_Cons:
  "fst (serve_all quote c (r # rs)) = fst (serve_all quote (fst (serve quote c r)) rs)"
  "snd (serve_all quote c (r # rs)) =
     snd (serve quote c r) # snd (serve_all quote (fst (serve quote c r)) rs)"
  by (simp_all add: case_prod_beta Let_def)

lemma serve_all_nth:
  "i < length rs \<Longrightarrow>
     snd (serve_all quote c rs) ! i = snd (serve quote (fst (serve_all quote c (take i rs))) (rs ! i)) \<and>
     fst (serve_all quote c (take (Suc i) rs)) =
       fst (serve quote (fst (serve_all quote c (take i rs))) (rs ! i))"
proof (induction rs arbitrary: c i)
  case Nil
  then show ?case by simp
next
  case (Cons r rs)
  show ?case
  proof (cases i)
    case 0
    then show ?thesis
      by (simp del: serve_all.simps add: serve_all_Cons serve_all.simps(1))
  next
    case (Suc k)
    with Cons.prems have k: "k < length rs" by simp
    from Cons.IH [OF k, of "fst (serve quote c r)"] Suc show ?thesis
      by (simp del: serve_all.simps add: serve_all_Cons)
  qed
qed

lemma New_literals: "builtinTexts (NewCompiledTemplatesProgram quote v) = []"
  by (simp add: NewCompiledTemplatesProgram_def Let_def addImport_literals)

text \<open>
  C3: in any compile request, started from a new program, a literal request whose
  text has not been requested before is given the next sequential name
  (\<^verbatim>\<open>builtin\<close> followed by the number of distinct texts seen so far) and one entry
  mapping the text to that name is added to the table; a request whose text has been
  requested before leaves the program as it was; and two literal requests of the
  request sequence get the same name exactly when their texts are equal.
\<close>

theorem literal_interning:
  "\<forall>i<length rs. \<forall>t. rs ! i = ReqText t \<longrightarrow>
     (t \<notin> set (req_texts (take i rs)) \<longrightarrow>
        snd (serve_all quote (NewCompiledTemplatesProgram quote v) rs) ! i =
          builtin_name (card (set (req_texts (take i rs)))) \<and>
        builtinTexts (fst (serve_all quote (NewCompiledTemplatesProgram quote v) (take (Suc i) rs))) =
          builtinTexts (fst (serve_all quote (NewCompiledTemplatesProgram quote v) (take i rs))) @
          [(t, snd (serve_all quote (NewCompiledTemplatesProgram quote v) rs) ! i)]) \<and>
     (t \<in> set (req_texts (take i rs)) \<longrightarrow>
        fst (serve_all quote (NewCompiledTemplatesProgram quote v) (take (Suc i) rs)) =
        fst (serve_all quote (NewCompiledTemplatesProgram quote v) (take i rs))) \<and>
     (\<forall>j<length rs. \<forall>u. rs ! j = ReqText u \<longrightarrow>
        (snd (serve_all quote (NewCompiledTemplatesProgram quote v) rs) ! i =
         snd (serve_all quote (NewCompiledTemplatesProgram quote v) rs) ! j) = (t = u))"
proof (intro allI impI)
  fix i t assume i: "i < length rs" and rt: "rs ! i = ReqText t"
  let ?c = "NewCompiledTemplatesProgram quote v"
  let ?ci = "fst (serve_all quote ?c (take i rs))"
  let ?outs = "snd (serve_all quote ?c rs)"
  have n0: "literals_numbered ?c" by (simp add: literals_numbered_def New_literals)
  from serve_all_literals [OF n0, of quote "take i rs"]
  have ni: "literals_numbered ?ci"
    and ki: "set (map fst (builtinTexts ?ci)) = set (req_texts (take i rs))"
    by (simp_all add: New_literals)
  from ni have "distinct (map fst (builtinTexts ?ci))" by (simp add: literals_numbered_def)
  then have "card (set (map fst (builtinTexts ?ci))) = length (builtinTexts ?ci)"
    by (simp only: distinct_card length_map)
  with ki have len: "length (builtinTexts ?ci) = card (set (req_texts (take i rs)))" by simp
  from serve_all_nth [OF i, of quote ?c] rt
  have out: "?outs ! i = snd (addBuiltintText ?ci t)"
    and nxt: "fst (serve_all quote ?c (take (Suc i) rs)) = fst (addBuiltintText ?ci t)"
    by simp_all
  have fresh: "t \<notin> set (req_texts (take i rs)) \<longrightarrow>
        ?outs ! i = builtin_name (card (set (req_texts (take i rs)))) \<and>
        builtinTexts (fst (serve_all quote ?c (take (Suc i) rs))) =
          builtinTexts ?ci @ [(t, ?outs ! i)]"
  proof
    assume "t \<notin> set (req_texts (take i rs))"
    with ki have "map_of (builtinTexts ?ci) t = None" by (simp add: map_of_eq_None_iff)
    from addBuiltintText_fresh [OF this] out nxt len
    show "?outs ! i = builtin_name (card (set (req_texts (take i rs)))) \<and>
        builtinTexts (fst (serve_all quote ?c (take (Suc i) rs))) =
          builtinTexts ?ci @ [(t, ?outs ! i)]"
      by simp
  qed
  have known: "t \<in> set (req_texts (take i rs)) \<longrightarrow>
        fst (serve_all quote ?c (take (Suc i) rs)) = ?ci"
  proof
    assume "t \<in> set (req_texts (take i rs))"
    with ki have "map_of (builtinTexts ?ci) t \<noteq> None" by (simp add: map_of_eq_None_iff)
    then obtain x where "map_of (builtinTexts ?ci) t = Some x" by blast
    from addBuiltintText_known [OF this] nxt
    show "fst (serve_all quote ?c (take (Suc i) rs)) = ?ci" by simp
  qed
  from serve_all_literals [OF n0, of quote rs]
  have nf: "literals_numbered (fst (serve_all quote ?c rs))"
    and look: "\<And>k w. k < length rs \<Longrightarrow> rs ! k = ReqText w \<Longrightarrow>
       map_of (builtinTexts (fst (serve_all quote ?c rs))) w = Some (?outs ! k)"
    by blast+
  have same: "\<forall>j<length rs. \<forall>u. rs ! j = ReqText u \<longrightarrow> (?outs ! i = ?outs ! j) = (t = u)"
  proof (intro allI impI)
    fix j u assume j: "j < length rs" and ru: "rs ! j = ReqText u"
    from look [OF i rt] have a: "map_of (builtinTexts (fst (serve_all quote ?c rs))) t = Some (?outs ! i)" .
    from look [OF j ru] have b: "map_of (builtinTexts (fst (serve_all quote ?c rs))) u = Some (?outs ! j)" .
    show "(?outs ! i = ?outs ! j) = (t = u)"
    proof
      assume "?outs ! i = ?outs ! j"
      with a b numbered_injective [OF nf, of t "?outs ! i" u] show "t = u" by simp
    next
      assume "t = u"
      with a b show "?outs ! i = ?outs ! j" by simp
    qed
  qed
  from fresh known same
  show "(t \<notin> set (req_texts (take i rs)) \<longrightarrow>
        ?outs ! i = builtin_name (card (set (req_texts (take i rs)))) \<and>
        builtinTexts (fst (serve_all quote ?c (take (Suc i) rs))) =
          builtinTexts ?ci @ [(t, ?outs ! i)]) \<and>
     (t \<in> set (req_texts (take i rs)) \<longrightarrow>
        fst (serve_all quote ?c (take (Suc i) rs)) = ?ci) \<and>
     (\<forall>j<length rs. \<forall>u. rs ! j = ReqText u \<longrightarrow> (?outs ! i = ?outs ! j) = (t = u))"
    by blast
qed

definition reqs1 :: "request list" where
  "reqs1 = [ReqText ''a'', ReqFuncName ''t'', ReqText ''b'', ReqText ''a'']"

lemma reqs1_outs:
  "snd (serve_all plain_quote prog0 reqs1) = [''builtin0'', ''fn0t'', ''builtin1'', ''builtin0'']"
  by (simp add: reqs1_def prog0_eq addBuiltintText_def makeFuncName_def Let_def
      isCollidingIdent_def makeFuncName_loop.simps itoa.simps digit_char_simps)

theorem literal_interning_witness:
  "(2::nat) < length reqs1 \<and> reqs1 ! 2 = ReqText ''b'' \<and>
   ''b'' \<notin> set (req_texts (take 2 reqs1)) \<and>
   (3::nat) < length reqs1 \<and> reqs1 ! 3 = ReqText ''a'' \<and>
   ''a'' \<in> set (req_texts (take 3 reqs1)) \<and>
   reqs1 ! 0 = ReqText ''a'' \<and>
   snd (serve_all plain_quote prog0 reqs1) ! 2 = builtin_name (card (set (req_texts (take 2 reqs1)))) \<and>
   snd (serve_all plain_quote prog0 reqs1) ! 2 = ''builtin1'' \<and>
   fst (serve_all plain_quote prog0 (take (Suc 3) reqs1)) = fst (serve_all plain_quote prog0 (take 3 reqs1)) \<and>
   snd (serve_all plain_quote prog0 reqs1) ! 3 = snd (serve_all plain_quote prog0 reqs1) ! 0 \<and>
   snd (serve_all plain_quote prog0 reqs1) ! 2 \<noteq> snd (serve_all plain_quote prog0 reqs1) ! 0"
proof -
  have h: "(2::nat) < length reqs1" "reqs1 ! 2 = ReqText ''b''"
    "''b'' \<notin> set (req_texts (take 2 reqs1))"
    "(3::nat) < length reqs1" "reqs1 ! 3 = ReqText ''a''"
    "''a'' \<in> set (req_texts (take 3 reqs1))"
    "reqs1 ! 0 = ReqText ''a''" "(0::nat) < length reqs1"
    by (simp_all add: reqs1_def eval_nat_numeral)
  have o: "snd (serve_all plain_quote prog0 reqs1) ! 2 = ''builtin1''"
    by (simp add: reqs1_outs)
  note t = literal_interning [of reqs1 plain_quote "''compiledTemplates''", folded prog0_def]
  from t h(1,2,3)
  have a: "snd (serve_all plain_quote prog0 reqs1) ! 2 = builtin_name (card (set (req_texts (take 2 reqs1))))"
    by blast
  from t h(4,5,6)
  have b: "fst (serve_all plain_quote prog0 (take (Suc 3) reqs1)) = fst (serve_all plain_quote prog0 (take 3 reqs1))"
    by blast
  from t h(4,5) h(8,7)
  have c: "snd (serve_all plain_quote prog0 reqs1) ! 3 = snd (serve_all plain_quote prog0 reqs1) ! 0"
    by blast
  from t h(1,2) h(8,7)
  have "(snd (serve_all plain_quote prog0 reqs1) ! 2 = snd (serve_all plain_quote prog0 reqs1) ! 0) = (''b'' = ''a'')"
    by blast
  then have d: "snd (serve_all plain_quote prog0 reqs1) ! 2 \<noteq> snd (serve_all plain_quote prog0 reqs1) ! 0"
    by simp
  from h o a b c d show ?thesis by blast
qed

section \<open>Work units\<close>

text \<open>
  \<^verbatim>\<open>TemplateFileToCompile\<close>. \<^verbatim>\<open>tplsTree\<close> is a Go map whose keys are enumerated (by
  \<^verbatim>\<open>names\<close> and by the loader), so it is an association list with one entry per key;
  \<^verbatim>\<open>tplsFunc\<close> and \<^verbatim>\<open>tplsTypeCheck\<close> are only read and written by key. Reading a
  missing key of \<^verbatim>\<open>tplsFunc\<close> gives the empty string. The trees and the type-check states
  belong to the parser and the simplifier: they are type parameters.
  \<^verbatim>\<open>TemplateConfiguration\<close> is declared outside the sources at hand: the assembler reads
  its \<^verbatim>\<open>TemplatesPath\<close> and \<^verbatim>\<open>HTML\<close> and hands the rest (\<^verbatim>\<open>Data\<close>, \<^verbatim>\<open>FuncsExport\<close>,
  \<^verbatim>\<open>PublicIdents\<close>, \<^verbatim>\<open>DataConfiguration\<close>) to its collaborators, so the rest is one
  opaque field.
\<close>

record ('tree, 'state) TemplateFileToCompile =
  name :: string
  tplsTree :: "(string \<times> 'tree) list"
  tplsFunc :: "string \<rightharpoonup> string"
  tplsTypeCheck :: "string \<rightharpoonup> 'state"
  definedTemplates :: "string list"

record 'x TemplateConfiguration =
  TemplatesPath :: string
  HTML :: bool
  Extra :: 'x

record ('tree, 'state, 'x) TemplateToCompile =
  conf :: "'x TemplateConfiguration"
  files :: "('tree, 'state) TemplateFileToCompile list"

definition get_func :: "(string \<rightharpoonup> string) \<Rightarrow> string \<Rightarrow> string" where
  "get_func m k = (case m k of None \<Rightarrow> [] | Some v \<Rightarrow> v)"

text \<open>\<^verbatim>\<open>names\<close>: the keys of \<^verbatim>\<open>tplsTree\<close>, sorted by \<^verbatim>\<open>sort.Strings\<close> (bytewise order).\<close>

definition names :: "('tree, 'state) TemplateFileToCompile \<Rightarrow> string list" where
  "names f = sort (map fst (tplsTree f))"

definition makeTemplateToCompileNew ::
  "'x TemplateConfiguration \<Rightarrow> ('tree, 'state, 'x) TemplateToCompile" where
  "makeTemplateToCompileNew templateConf = \<lparr>conf = templateConf, files = []\<rparr>"

section \<open>Emitters\<close>

definition nl :: string where
  "nl = [CHR 0x0A]"

text \<open>
  \<^verbatim>\<open>generateInitFunc\<close>. The string is built by appending, loop after loop, as in the
  source; \<^verbatim>\<open>%#v\<close> of a string is the quoting passed as \<open>quote\<close>. The index \<^verbatim>\<open>i\<close> counts the
  files of one template configuration, \<^verbatim>\<open>e\<close> the defined templates of one file.
\<close>

definition add_stmt :: "(string \<Rightarrow> string) \<Rightarrow> CompiledTemplatesProgram \<Rightarrow> string \<Rightarrow> string \<Rightarrow> string" where
  "add_stmt quote c nm funcname =
     ''  '' @ varName c @ ''.Add('' @ quote nm @ '', '' @ funcname @ '')'' @ nl"

definition attach_stmts ::
  "(string \<Rightarrow> string) \<Rightarrow> CompiledTemplatesProgram \<Rightarrow> nat \<Rightarrow> nat \<Rightarrow> string \<Rightarrow> string \<Rightarrow> string" where
  "attach_stmts quote c i e fname nm =
     (let varX = ''tpl'' @ itoa i @ ''X'' @ itoa e;
          varY = ''tpl'' @ itoa i @ ''Y'' @ itoa e
      in ''  '' @ varX @ '' := '' @ varName c @ ''.MustGet('' @ quote fname @ '')'' @ nl @
         ''  '' @ varY @ '' := '' @ varName c @ ''.MustGet('' @ quote nm @ '')'' @ nl @
         ''  '' @ varX @ '', _ = '' @ varX @ ''.Compiled('' @ varY @ '')'' @ nl @
         ''  '' @ varName c @ ''.Set('' @ quote fname @ '', '' @ varX @ '')'' @ nl)"

definition init_register ::
  "(string \<Rightarrow> string) \<Rightarrow> CompiledTemplatesProgram \<Rightarrow> ('tree, 'state, 'x) TemplateToCompile list
     \<Rightarrow> string \<Rightarrow> string" where
  "init_register quote c tpls initfunc =
     foldl (\<lambda>acc t.
       foldl (\<lambda>acc f.
         foldl (\<lambda>acc nm. acc @ add_stmt quote c nm (get_func (tplsFunc f) nm)) acc (names f))
       acc (files t))
     initfunc tpls"

definition init_attach ::
  "(string \<Rightarrow> string) \<Rightarrow> CompiledTemplatesProgram \<Rightarrow> ('tree, 'state, 'x) TemplateToCompile list
     \<Rightarrow> string \<Rightarrow> string" where
  "init_attach quote c tpls initfunc =
     foldl (\<lambda>acc t.
       foldl (\<lambda>acc (i, f).
         foldl (\<lambda>acc (e, nm). acc @ attach_stmts quote c i e (name f) nm)
           acc (enumerate 0 (definedTemplates f)))
       acc (enumerate 0 (files t)))
     initfunc tpls"

definition generateInitFunc ::
  "(string \<Rightarrow> string) \<Rightarrow> CompiledTemplatesProgram \<Rightarrow> ('tree, 'state, 'x) TemplateToCompile list
     \<Rightarrow> string" where
  "generateInitFunc quote c tpls =
     init_attach quote c tpls (init_register quote c tpls (''func init () {'' @ nl)) @ ''}''"

definition generateImportStmt :: "CompiledTemplatesProgram \<Rightarrow> string" where
  "generateImportStmt c =
     foldl (\<lambda>acc i. acc @ [CHR 0x09] @
                (case Name i of None \<Rightarrow> [] | Some n \<Rightarrow> n @ '' '') @ Path i @ nl)
       (''import ('' @ nl) (imports' c) @ '')''"

text \<open>
  \<^verbatim>\<open>generateBuiltins\<close> ranges over the Go map \<^verbatim>\<open>builtinTexts\<close>. The Go language leaves the
  iteration order of a map unspecified and the runtime varies it from one loop to the
  next; \<open>range_order\<close> is the order the runtime chooses, a rearrangement of the entries.
\<close>

definition generateBuiltins ::
  "(string \<Rightarrow> string) \<Rightarrow> ((string \<times> string) list \<Rightarrow> (string \<times> string) list)
     \<Rightarrow> CompiledTemplatesProgram \<Rightarrow> string" where
  "generateBuiltins quote range_order c =
     foldl (\<lambda>acc (text, nm). acc @ ''var '' @ nm @ '' = []byte('' @ quote text @ '')'' @ nl)
       [] (range_order (builtinTexts c))"

text \<open>
  \<^verbatim>\<open>generateProgram\<close>; \<^verbatim>\<open>astNodeToString\<close>, the printer of a function declaration, is not
  part of the sources at hand and is the argument \<open>print_func\<close>.
\<close>

definition generateProgram ::
  "(string \<Rightarrow> string) \<Rightarrow> ((string \<times> string) list \<Rightarrow> (string \<times> string) list)
     \<Rightarrow> (FuncDecl \<Rightarrow> string) \<Rightarrow> CompiledTemplatesProgram \<Rightarrow> string
     \<Rightarrow> ('tree, 'state, 'x) TemplateToCompile list \<Rightarrow> string" where
  "generateProgram quote range_order print_func c outpkg tpls =
     foldl (\<lambda>program f. program @ print_func f @ nl @ nl)
       (''package '' @ outpkg @ nl @ nl @
        ''//golint:ignore'' @ nl @ nl @
        generateImportStmt c @ nl @ nl @
        generateBuiltins quote range_order c @ nl @ nl @
        generateInitFunc quote c tpls @ nl @ nl)
       (funcs c)"

section \<open>The init routine and the artifact\<close>

text \<open>
  The statements of the init routine, as a list: all registrations, then all
  attachments, each in the order of the loops of \<^verbatim>\<open>generateInitFunc\<close>.
\<close>

datatype init_stmt = Add string string | Attach nat nat string string

fun is_Add :: "init_stmt \<Rightarrow> bool" where
  "is_Add (Add nm fn) = True"
| "is_Add s = False"

fun render_stmt :: "(string \<Rightarrow> string) \<Rightarrow> CompiledTemplatesProgram \<Rightarrow> init_stmt \<Rightarrow> string" where
  "render_stmt quote c (Add nm fn) = add_stmt quote c nm fn"
| "render_stmt quote c (Attach i e fname nm) = attach_stmts quote c i e fname nm"

definition registrations :: "('tree, 'state, 'x) TemplateToCompile list \<Rightarrow> init_stmt list" where
  "registrations tpls =
     concat (map (\<lambda>t. concat (map (\<lambda>f. map (\<lambda>nm. Add nm (get_func (tplsFunc f) nm)) (names f))
                                 (files t))) tpls)"

definition attachments :: "('tree, 'state, 'x) TemplateToCompile list \<Rightarrow> init_stmt list" where
  "attachments tpls =
     concat (map (\<lambda>t. concat (map (\<lambda>(i, f). map (\<lambda>(e, nm). Attach i e (name f) nm)
                                                (enumerate 0 (definedTemplates f)))
                                 (enumerate 0 (files t)))) tpls)"

lemma foldl_append_concat: "foldl (\<lambda>acc x. acc @ g x) acc xs = acc @ concat (map g xs)"
  by (induction xs arbitrary: acc) simp_all

lemma foldl_nested_concat:
  "foldl (\<lambda>acc x. foldl (\<lambda>acc y. acc @ g x y) acc (h x)) acc xs =
     acc @ concat (map (\<lambda>x. concat (map (g x) (h x))) xs)"
  by (induction xs arbitrary: acc) (simp_all add: foldl_append_concat)

lemma concat_map_concat:
  "concat (map f (concat xss)) = concat (map (\<lambda>xs. concat (map f xs)) xss)"
  by (induction xss) simp_all

lemma init_register_eq:
  "init_register quote c tpls acc = acc @ concat (map (render_stmt quote c) (registrations tpls))"
proof (induction tpls arbitrary: acc)
  case Nil
  show ?case by (simp add: init_register_def registrations_def)
next
  case (Cons t tpls)
  from Cons show ?case
    by (simp add: init_register_def registrations_def foldl_nested_concat
        concat_map_concat o_def)
qed

lemma init_attach_eq:
  "init_attach quote c tpls acc = acc @ concat (map (render_stmt quote c) (attachments tpls))"
proof (induction tpls arbitrary: acc)
  case Nil
  show ?case by (simp add: init_attach_def attachments_def)
next
  case (Cons t tpls)
  from Cons show ?case
    by (simp add: init_attach_def attachments_def split_def foldl_nested_concat
        concat_map_concat o_def)
qed

lemma registrations_Add: "s \<in> set (registrations tpls) \<Longrightarrow> is_Add s"
  by (auto simp: registrations_def)

lemma attachments_Attach: "s \<in> set (attachments tpls) \<Longrightarrow> \<not> is_Add s"
  by (auto simp: attachments_def)

lemma generateInitFunc_statements:
  "generateInitFunc quote c tpls =
     ''func init () {'' @ nl @
     concat (map (render_stmt quote c) (registrations tpls @ attachments tpls)) @ ''}'' \<and>
   (\<forall>s \<in> set (registrations tpls). is_Add s) \<and>
   (\<forall>s \<in> set (attachments tpls). \<not> is_Add s)"
  by (simp add: generateInitFunc_def init_register_eq init_attach_eq
      registrations_Add attachments_Attach)

text \<open>
  The variables of the emitted routine. A line \<^verbatim>\<open>v := e\<close> of a Go function body is a short
  variable declaration of \<^verbatim>\<open>v\<close>; the body of the emitted routine is one block, and the Go
  compiler rejects a short variable declaration that declares no new variable in its
  block (\<^verbatim>\<open>no new variables on left side of :=\<close>). \<open>declared_vars\<close> lists, line by line, the
  variables that the lines of that form declare.
\<close>

fun split_lines :: "string \<Rightarrow> string list" where
  "split_lines [] = [[]]"
| "split_lines (ch # s) =
     (if ch = CHR 0x0A then [] # split_lines s
      else (case split_lines s of [] \<Rightarrow> [[ch]] | l # ls \<Rightarrow> (ch # l) # ls))"

definition short_decl :: "string \<Rightarrow> string option" where
  "short_decl l =
     (let s = dropWhile (\<lambda>ch. ch = CHR '' '') l;
          v = takeWhile (\<lambda>ch. ch \<noteq> CHR '' '') s
      in if v \<noteq> [] \<and> take 4 (drop (length v) s) = '' := '' then Some v else None)"

definition declared_vars :: "string \<Rightarrow> string list" where
  "declared_vars body = List.map_filter short_decl (split_lines body)"

text \<open>
  Two template configurations, each with one file that defines one nested template.
\<close>

definition unit_a :: "(nat, nat) TemplateFileToCompile" where
  "unit_a = \<lparr>name = ''a.tpl'', tplsTree = [(''a.tpl'', 0), (''x'', 1)],
     tplsFunc = [''a.tpl'' \<mapsto> ''fnaTpl'', ''x'' \<mapsto> ''fnaTplX''],
     tplsTypeCheck = Map.empty, definedTemplates = [''x'']\<rparr>"

definition unit_b :: "(nat, nat) TemplateFileToCompile" where
  "unit_b = \<lparr>name = ''b.tpl'', tplsTree = [(''b.tpl'', 2), (''y'', 3)],
     tplsFunc = [''b.tpl'' \<mapsto> ''fnbTpl'', ''y'' \<mapsto> ''fnbTplY''],
     tplsTypeCheck = Map.empty, definedTemplates = [''y'']\<rparr>"

definition tpls2 :: "(nat, nat, unit) TemplateToCompile list" where
  "tpls2 = [\<lparr>conf = \<lparr>TemplatesPath = ''a/*.tpl'', HTML = True, Extra = ()\<rparr>, files = [unit_a]\<rparr>,
            \<lparr>conf = \<lparr>TemplatesPath = ''b/*.tpl'', HTML = True, Extra = ()\<rparr>, files = [unit_b]\<rparr>]"

definition prog_ab :: CompiledTemplatesProgram where
  "prog_ab = fst (serve_all plain_quote prog0 [ReqText ''a'', ReqText ''b''])"

lemma names_units: "names unit_a = [''a.tpl'', ''x'']" "names unit_b = [''b.tpl'', ''y'']"
  by (simp_all add: names_def unit_a_def unit_b_def)

lemma init_tpls2:
  "generateInitFunc plain_quote prog0 tpls2 =
     ''func init () {'' @ nl @
     ''  compiledTemplates.Add('' @ plain_quote ''a.tpl'' @ '', fnaTpl)'' @ nl @
     ''  compiledTemplates.Add('' @ plain_quote ''x'' @ '', fnaTplX)'' @ nl @
     ''  compiledTemplates.Add('' @ plain_quote ''b.tpl'' @ '', fnbTpl)'' @ nl @
     ''  compiledTemplates.Add('' @ plain_quote ''y'' @ '', fnbTplY)'' @ nl @
     ''  tpl0X0 := compiledTemplates.MustGet('' @ plain_quote ''a.tpl'' @ '')'' @ nl @
     ''  tpl0Y0 := compiledTemplates.MustGet('' @ plain_quote ''x'' @ '')'' @ nl @
     ''  tpl0X0, _ = tpl0X0.Compiled(tpl0Y0)'' @ nl @
     ''  compiledTemplates.Set('' @ plain_quote ''a.tpl'' @ '', tpl0X0)'' @ nl @
     ''  tpl0X0 := compiledTemplates.MustGet('' @ plain_quote ''b.tpl'' @ '')'' @ nl @
     ''  tpl0Y0 := compiledTemplates.MustGet('' @ plain_quote ''y'' @ '')'' @ nl @
     ''  tpl0X0, _ = tpl0X0.Compiled(tpl0Y0)'' @ nl @
     ''  compiledTemplates.Set('' @ plain_quote ''b.tpl'' @ '', tpl0X0)'' @ nl @
     ''}''"
  by (simp add: generateInitFunc_def init_register_def init_attach_def tpls2_def names_units)
     (simp add: unit_a_def unit_b_def get_func_def add_stmt_def attach_stmts_def prog0_eq
        itoa.simps digit_char_simps)

text \<open>
  C4: the init routine is claimed to perform, after all registrations, one attachment for
  every defined template: fetch the main entry and the nested entry, attach, overwrite
  the slot of the main entry. \<^verbatim>\<open>generateInitFunc\<close> names the two variables of an attachment
  after the index of the file within its template configuration and the index of the
  defined template within its file, and leaves the template configuration out. With two
  template configurations that each have a file with a defined template, the registrations
  do come first, but the two attachments declare the same variables \<^verbatim>\<open>tpl0X0\<close> and
  \<^verbatim>\<open>tpl0Y0\<close> with \<^verbatim>\<open>:=\<close> in the one body of the routine: the routine is not accepted by the
  Go compiler, and no attachment is performed.
\<close>

theorem generateInitFunc_redeclares:
  "generateInitFunc plain_quote prog0 tpls2 =
     ''func init () {'' @ nl @
     ''  compiledTemplates.Add('' @ plain_quote ''a.tpl'' @ '', fnaTpl)'' @ nl @
     ''  compiledTemplates.Add('' @ plain_quote ''x'' @ '', fnaTplX)'' @ nl @
     ''  compiledTemplates.Add('' @ plain_quote ''b.tpl'' @ '', fnbTpl)'' @ nl @
     ''  compiledTemplates.Add('' @ plain_quote ''y'' @ '', fnbTplY)'' @ nl @
     ''  tpl0X0 := compiledTemplates.MustGet('' @ plain_quote ''a.tpl'' @ '')'' @ nl @
     ''  tpl0Y0 := compiledTemplates.MustGet('' @ plain_quote ''x'' @ '')'' @ nl @
     ''  tpl0X0, _ = tpl0X0.Compiled(tpl0Y0)'' @ nl @
     ''  compiledTemplates.Set('' @ plain_quote ''a.tpl'' @ '', tpl0X0)'' @ nl @
     ''  tpl0X0 := compiledTemplates.MustGet('' @ plain_quote ''b.tpl'' @ '')'' @ nl @
     ''  tpl0Y0 := compiledTemplates.MustGet('' @ plain_quote ''y'' @ '')'' @ nl @
     ''  tpl0X0, _ = tpl0X0.Compiled(tpl0Y0)'' @ nl @
     ''  compiledTemplates.Set('' @ plain_quote ''b.tpl'' @ '', tpl0X0)'' @ nl @
     ''}'' \<and>
   declared_vars (generateInitFunc plain_quote prog0 tpls2) =
     [''tpl0X0'', ''tpl0Y0'', ''tpl0X0'', ''tpl0Y0''] \<and>
   \<not> distinct (declared_vars (generateInitFunc plain_quote prog0 tpls2))"
proof -
  have d: "declared_vars (generateInitFunc plain_quote prog0 tpls2) =
     [''tpl0X0'', ''tpl0Y0'', ''tpl0X0'', ''tpl0Y0'']"
    by (simp add: init_tpls2 declared_vars_def nl_def plain_quote_def short_decl_def
        List.map_filter_simps)
  from d have "\<not> distinct (declared_vars (generateInitFunc plain_quote prog0 tpls2))"
    by simp
  with d init_tpls2 show ?thesis by simp
qed

text \<open>
  \<^verbatim>\<open>names\<close> sorts the keys it collects, so its result does not depend on the order in
  which the runtime hands out the keys of the map.
\<close>

lemma sort_mset_eq: "mset xs = mset ys \<Longrightarrow> sort xs = sort ys" for xs :: "'a::linorder list"
  by (rule properties_for_sort) simp_all

lemma names_order_free:
  "mset (tplsTree f) = mset (tplsTree g) \<Longrightarrow> names f = names g"
proof -
  assume "mset (tplsTree f) = mset (tplsTree g)"
  then have "mset (map fst (tplsTree f)) = mset (map fst (tplsTree g))"
    by (metis mset_map)
  then show ?thesis unfolding names_def by (rule sort_mset_eq)
qed

lemma prog_ab_literals:
  "builtinTexts prog_ab = [(''a'', ''builtin0''), (''b'', ''builtin1'')]"
  by (simp add: prog_ab_def prog0_eq addBuiltintText_def Let_def itoa.simps digit_char_simps)

lemma prog_ab_funcs: "funcs prog_ab = []"
  by (simp add: prog_ab_def prog0_eq addBuiltintText_def Let_def itoa.simps digit_char_simps)

text \<open>
  C5: the literal declarations are claimed to follow the order in which the literals
  were first seen. \<^verbatim>\<open>generateBuiltins\<close> ranges over a Go map: when the runtime visits the
  entries in another order (here the reverse one), the literal interned second is
  declared first.
\<close>

theorem generateBuiltins_reversed:
  "snd (serve_all plain_quote prog0 [ReqText ''a'', ReqText ''b'']) = [''builtin0'', ''builtin1''] \<and>
   mset (rev (builtinTexts prog_ab)) = mset (builtinTexts prog_ab) \<and>
   generateBuiltins plain_quote rev prog_ab =
     ''var builtin1 = []byte('' @ plain_quote ''b'' @ '')'' @ nl @
     ''var builtin0 = []byte('' @ plain_quote ''a'' @ '')'' @ nl"
  by (simp add: generateBuiltins_def prog_ab_literals)
     (simp add: prog0_eq addBuiltintText_def Let_def itoa.simps digit_char_simps)

text \<open>
  C2: two runs on the same input are claimed to give the same artifact. For a
  program holding two literals, two iteration orders that the runtime may choose for
  \<^verbatim>\<open>builtinTexts\<close> give two different artifacts, whatever the package, the templates and
  the printer of functions.
\<close>

theorem generateProgram_order_dependent:
  "mset (rev (builtinTexts prog_ab)) = mset (id (builtinTexts prog_ab)) \<and>
   generateProgram plain_quote id print_func prog_ab outpkg tpls \<noteq>
   generateProgram plain_quote rev print_func prog_ab outpkg tpls"
  by (simp add: generateProgram_def prog_ab_funcs generateBuiltins_def prog_ab_literals)

section \<open>The collaborators and the file system\<close>

text \<open>
  Errors are values. \<open>Raw\<close> is an error of a collaborator (file system, parser, node
  converter) handed on as it is; \<open>GlobFailed\<close> and \<open>PackageLookupFailed\<close> are the errors
  that \<^verbatim>\<open>prepare\<close> and \<^verbatim>\<open>updateOutPkg\<close> build with \<^verbatim>\<open>fmt.Errorf\<close> around a cause;
  \<open>WriteFailed\<close> is the one of \<^verbatim>\<open>CompileAndWrite\<close>; \<open>Panic\<close> is a run-time panic (an index
  or slice bound out of range), which unwinds through every caller.
\<close>

datatype 'e error =
    Raw 'e
  | ErrBadPattern
  | GlobFailed string "'e error"
  | PackageLookupFailed "'e error"
  | WriteFailed 'e
  | Panic

text \<open>
  What the assembler calls and does not define. \<open>BadPattern\<close> and \<open>Matches\<close> describe
  \<^verbatim>\<open>filepath.Glob\<close>; \<open>ReadFile\<close>, \<open>StatNotExist\<close> (the error of \<^verbatim>\<open>os.Stat\<close> when
  \<^verbatim>\<open>os.IsNotExist\<close> holds of it), \<open>DirOf\<close> (\<^verbatim>\<open>filepath.Dir\<close>) and \<open>WriteFile\<close> are the file
  system; \<open>ParseText\<close> and \<open>ParseHTML\<close> give, for a name, a content and the function
  library, either the parser's error or the templates of \<^verbatim>\<open>t.Templates()\<close>, each with
  its name and with its tree as it is after the \<^verbatim>\<open>Execute\<close> probe (\<open>None\<close> for a nil tree);
  \<open>TransformTree\<close> is the simplifier; \<open>ConvertTplTree\<close> is the node converter, which
  returns an error or the program as it has left it; \<open>SnakeToCamel\<close> and \<open>ToLower\<close> are
  \<^verbatim>\<open>snaker.SnakeToCamel\<close> and \<^verbatim>\<open>strings.ToLower\<close>; \<open>Quote\<close> is \<^verbatim>\<open>%q\<close>; \<open>PrintFunc\<close> is
  \<^verbatim>\<open>astNodeToString\<close>; \<open>RangeTrees\<close> and \<open>RangeTexts\<close> are the orders in which the runtime
  ranges over the maps \<^verbatim>\<open>tplsTree\<close> and \<^verbatim>\<open>builtinTexts\<close>.
\<close>

record ('tree, 'state, 'x, 'e) world =
  BadPattern :: "string \<Rightarrow> bool"
  Matches :: "string \<Rightarrow> string list"
  ReadFile :: "string \<Rightarrow> 'e + string"
  StatNotExist :: "string \<Rightarrow> 'e option"
  DirOf :: "string \<Rightarrow> string"
  WriteFile :: "string \<Rightarrow> string \<Rightarrow> 'e option"
  ParseText :: "string \<Rightarrow> string \<Rightarrow> 'x \<Rightarrow> 'e + (string \<times> 'tree option) list"
  ParseHTML :: "string \<Rightarrow> string \<Rightarrow> 'x \<Rightarrow> 'e + (string \<times> 'tree option) list"
  TransformTree :: "'tree \<Rightarrow> 'x \<Rightarrow> 'state"
  ConvertTplTree :: "string \<Rightarrow> 'tree option \<Rightarrow> 'x \<Rightarrow> 'state option
     \<Rightarrow> CompiledTemplatesProgram \<Rightarrow> 'e + CompiledTemplatesProgram"
  SnakeToCamel :: "string \<Rightarrow> string"
  ToLower :: "string \<Rightarrow> string"
  Quote :: "string \<Rightarrow> string"
  PrintFunc :: "FuncDecl \<Rightarrow> string"
  RangeTrees :: "(string \<times> 'tree) list \<Rightarrow> (string \<times> 'tree) list"
  RangeTexts :: "(string \<times> string) list \<Rightarrow> (string \<times> string) list"

text \<open>
  \<^verbatim>\<open>filepath.Glob\<close> ignores I/O errors; the only error it returns is
  \<^verbatim>\<open>ErrBadPattern\<close>, when the pattern is malformed.
\<close>

definition filepath_Glob :: "('tree, 'state, 'x, 'e) world \<Rightarrow> string \<Rightarrow> 'e error + string list" where
  "filepath_Glob W pattern = (if BadPattern W pattern then Inl ErrBadPattern else Inr (Matches W pattern))"

section \<open>Loading the templates\<close>

text \<open>Storing under a key of a Go map: the entry of the key is replaced, or a new one is added.\<close>

fun map_put :: "'k \<Rightarrow> 'v \<Rightarrow> ('k \<times> 'v) list \<Rightarrow> ('k \<times> 'v) list" where
  "map_put k v [] = [(k, v)]"
| "map_put k v ((k', v') # m) = (if k = k' then (k, v) # m else (k', v') # map_put k v m)"

definition collect_trees :: "(string \<times> 'tree option) list \<Rightarrow> (string \<times> 'tree) list" where
  "collect_trees tpls =
     foldl (\<lambda>ret (nm, tree). case tree of None \<Rightarrow> ret | Some tr \<Rightarrow> map_put nm tr ret) [] tpls"

definition compileTextTemplate ::
  "('tree, 'state, 'x, 'e) world \<Rightarrow> string \<Rightarrow> string \<Rightarrow> 'x \<Rightarrow> 'e + (string \<times> 'tree) list" where
  "compileTextTemplate W nm content funcsMap =
     (case ParseText W nm content funcsMap of
        Inl err \<Rightarrow> Inl err
      | Inr tpls \<Rightarrow> Inr (collect_trees tpls))"

definition compileHTMLTemplate ::
  "('tree, 'state, 'x, 'e) world \<Rightarrow> string \<Rightarrow> string \<Rightarrow> 'x \<Rightarrow> 'e + (string \<times> 'tree) list" where
  "compileHTMLTemplate W nm content funcsMap =
     (case ParseHTML W nm content funcsMap of
        Inl err \<Rightarrow> Inl err
      | Inr tpls \<Rightarrow> Inr (collect_trees tpls))"

text \<open>
  \<^verbatim>\<open>cleanTplName\<close> calls \<^verbatim>\<open>replaceAll\<close> with the single removal \<^verbatim>\<open>"."\<close> and the replacement
  \<^verbatim>\<open>"_"\<close>: every dot becomes an underscore.
\<close>

definition cleanTplName :: "string \<Rightarrow> string" where
  "cleanTplName nm = map (\<lambda>ch. if ch = CHR ''.'' then CHR ''_'' else ch) nm"

definition makeTemplateFileToCompileFromFile ::
  "('tree, 'state, 'x, 'e) world \<Rightarrow> string \<Rightarrow> 'x \<Rightarrow> bool
     \<Rightarrow> 'e error + ('tree, 'state) TemplateFileToCompile" where
  "makeTemplateFileToCompileFromFile W tplPath x html =
     (let fileTpl = \<lparr>name = filepath_Base tplPath, tplsTree = [], tplsFunc = Map.empty,
                      tplsTypeCheck = Map.empty, definedTemplates = []\<rparr>
      in case ReadFile W tplPath of
           Inl err \<Rightarrow> Inl (Raw err)
         | Inr content \<Rightarrow>
             (let mainName = name fileTpl
              in case (if html then compileHTMLTemplate W mainName content x
                       else compileTextTemplate W mainName content x) of
                   Inl err \<Rightarrow> Inl (Raw err)
                 | Inr treeNames \<Rightarrow>
                     Inr (foldl (\<lambda>ft (treeName, tree).
                            (let ft1 = ft\<lparr>tplsTypeCheck :=
                                      (tplsTypeCheck ft)(treeName \<mapsto> TransformTree W tree x)\<rparr>
                             in if treeName \<noteq> mainName
                                then ft1\<lparr>tplsFunc := (tplsFunc ft1)(treeName \<mapsto>
                                            cleanTplName (''fn'' @ mainName @ ''_'' @ treeName)),
                                         definedTemplates := definedTemplates ft1 @ [treeName]\<rparr>
                                else ft1\<lparr>tplsFunc := (tplsFunc ft1)(treeName \<mapsto>
                                            cleanTplName (''fn'' @ mainName))\<rparr>))
                          (fileTpl\<lparr>tplsTree := treeNames\<rparr>) (RangeTrees W treeNames))))"

text \<open>
  \<^verbatim>\<open>prepare\<close>: the first file that cannot be loaded ends the loop with its error.
\<close>

fun prepare_files ::
  "('tree, 'state, 'x, 'e) world \<Rightarrow> ('tree, 'state, 'x) TemplateToCompile \<Rightarrow> string list
     \<Rightarrow> 'e error + ('tree, 'state, 'x) TemplateToCompile" where
  "prepare_files W t [] = Inr t"
| "prepare_files W t (tplPath # tplsPath) =
     (case makeTemplateFileToCompileFromFile W tplPath (Extra (conf t)) (HTML (conf t)) of
        Inl err \<Rightarrow> Inl err
      | Inr fileTpl \<Rightarrow> prepare_files W (t\<lparr>files := files t @ [fileTpl]\<rparr>) tplsPath)"

definition prepare ::
  "('tree, 'state, 'x, 'e) world \<Rightarrow> ('tree, 'state, 'x) TemplateToCompile
     \<Rightarrow> 'e error + ('tree, 'state, 'x) TemplateToCompile" where
  "prepare W t =
     (case filepath_Glob W (TemplatesPath (conf t)) of
        Inl err \<Rightarrow> Inl (GlobFailed (TemplatesPath (conf t)) err)
      | Inr tplsPath \<Rightarrow> prepare_files W t tplsPath)"

section \<open>The compile request\<close>

text \<open>
  \<^verbatim>\<open>strings.Index\<close>: the position of the first occurrence, \<open>None\<close> for Go's \<^verbatim>\<open>-1\<close>.
\<close>

fun strings_Index :: "string \<Rightarrow> string \<Rightarrow> nat option" where
  "strings_Index [] sep = (if sep = [] then Some 0 else None)"
| "strings_Index (ch # s) sep =
     (if take (length sep) (ch # s) = sep then Some 0
      else map_option Suc (strings_Index s sep))"

text \<open>
  \<^verbatim>\<open>LookupPackageNameFromStr\<close>: slicing at an index \<^verbatim>\<open>-1\<close> panics, and so does taking the
  second element of a \<^verbatim>\<open>strings.Split\<close> that found no separator. The second element of
  the split is what lies between the first and the second separator (or the end).
\<close>

definition LookupPackageNameFromStr :: "string \<Rightarrow> 'e error + string" where
  "LookupPackageNameFromStr gocode =
     (case strings_Index gocode ''package'' of
        None \<Rightarrow> Inl Panic
      | Some i \<Rightarrow>
          (let g1 = drop i gocode
           in case strings_Index g1 nl of
                None \<Rightarrow> Inl Panic
              | Some j \<Rightarrow>
                  (let g2 = take j g1
                   in case strings_Index g2 ''package '' of
                        None \<Rightarrow> Inl Panic
                      | Some k \<Rightarrow>
                          (let rest = drop (k + length ''package '') g2
                           in case strings_Index rest ''package '' of
                                None \<Rightarrow> Inr rest
                              | Some m \<Rightarrow> Inr (take m rest)))))"

definition LookupPackageName :: "('tree, 'state, 'x, 'e) world \<Rightarrow> string \<Rightarrow> 'e error + string" where
  "LookupPackageName W someDir =
     (let dir = DirOf W someDir
      in case StatNotExist W dir of
           Some err \<Rightarrow> Inl (Raw err)
         | None \<Rightarrow>
             (case filepath_Glob W (DirOf W someDir @ ''/*.go'') of
                Inl err \<Rightarrow> Inl err
              | Inr [] \<Rightarrow> Inr (filepath_Base (DirOf W someDir))
              | Inr (f # fs) \<Rightarrow>
                  (case ReadFile W f of
                     Inl err \<Rightarrow> Inl (Raw err)
                   | Inr b \<Rightarrow> LookupPackageNameFromStr b)))"

record 'x Configuration =
  OutPath :: string
  OutPkg :: string
  Templates :: "'x TemplateConfiguration list"

definition updateOutPkg ::
  "('tree, 'state, 'x, 'e) world \<Rightarrow> 'x Configuration \<Rightarrow> 'e error + 'x Configuration" where
  "updateOutPkg W config =
     (if OutPkg config = []
      then (case LookupPackageName W (OutPath config) of
              Inl Panic \<Rightarrow> Inl Panic
            | Inl err \<Rightarrow> Inl (PackageLookupFailed err)
            | Inr pkgName \<Rightarrow> Inr (config\<lparr>OutPkg := pkgName\<rparr>))
      else Inr config)"

definition convertConfigToTemplatesToCompile ::
  "'x Configuration \<Rightarrow> ('tree, 'state, 'x) TemplateToCompile list" where
  "convertConfigToTemplatesToCompile config = map makeTemplateToCompileNew (Templates config)"

fun prepare_all ::
  "('tree, 'state, 'x, 'e) world \<Rightarrow> ('tree, 'state, 'x) TemplateToCompile list
     \<Rightarrow> 'e error + ('tree, 'state, 'x) TemplateToCompile list" where
  "prepare_all W [] = Inr []"
| "prepare_all W (t # ts) =
     (case prepare W t of
        Inl err \<Rightarrow> Inl err
      | Inr t1 \<Rightarrow> (case prepare_all W ts of Inl err \<Rightarrow> Inl err | Inr ts1 \<Rightarrow> Inr (t1 # ts1)))"

definition getTemplatesToCompile ::
  "('tree, 'state, 'x, 'e) world \<Rightarrow> 'x Configuration
     \<Rightarrow> 'e error + ('tree, 'state, 'x) TemplateToCompile list" where
  "getTemplatesToCompile W config = prepare_all W (convertConfigToTemplatesToCompile config)"

definition snakeToCamel :: "('tree, 'state, 'x, 'e) world \<Rightarrow> string \<Rightarrow> string" where
  "snakeToCamel W s =
     (let s1 = SnakeToCamel W s
      in if length s1 > 0 then ToLower W (take 1 s1) @ drop 1 s1 else s1)"

text \<open>
  \<^verbatim>\<open>convertTemplates\<close>: for every name of every file, in the order of \<^verbatim>\<open>names\<close>, the function
  name is allocated, then normalised, then the node converter runs on the program; the
  first error ends the request. The maps of a file are shared with the caller, so the
  names stored in \<^verbatim>\<open>tplsFunc\<close> are those that \<^verbatim>\<open>generateProgram\<close> reads afterwards.
\<close>

fun convert_names ::
  "('tree, 'state, 'x, 'e) world \<Rightarrow> 'x \<Rightarrow> CompiledTemplatesProgram
     \<Rightarrow> ('tree, 'state) TemplateFileToCompile \<Rightarrow> string list
     \<Rightarrow> 'e error + (CompiledTemplatesProgram \<times> ('tree, 'state) TemplateFileToCompile)" where
  "convert_names W x c f [] = Inr (c, f)"
| "convert_names W x c f (nm # nms) =
     (let (c1, allocated) = makeFuncName c (get_func (tplsFunc f) nm);
          f1 = f\<lparr>tplsFunc := (tplsFunc f)(nm \<mapsto> allocated)\<rparr>;
          f2 = f1\<lparr>tplsFunc := (tplsFunc f1)(nm \<mapsto> snakeToCamel W (get_func (tplsFunc f1) nm))\<rparr>
      in case ConvertTplTree W (get_func (tplsFunc f2) nm) (map_of (tplsTree f2) nm) x
                (tplsTypeCheck f2 nm) c1 of
           Inl err \<Rightarrow> Inl (Raw err)
         | Inr c2 \<Rightarrow> convert_names W x c2 f2 nms)"

fun convert_files ::
  "('tree, 'state, 'x, 'e) world \<Rightarrow> 'x \<Rightarrow> CompiledTemplatesProgram
     \<Rightarrow> ('tree, 'state) TemplateFileToCompile list
     \<Rightarrow> 'e error + (CompiledTemplatesProgram \<times> ('tree, 'state) TemplateFileToCompile list)" where
  "convert_files W x c [] = Inr (c, [])"
| "convert_files W x c (f # fs) =
     (case convert_names W x c f (names f) of
        Inl err \<Rightarrow> Inl err
      | Inr (c1, f1) \<Rightarrow>
          (case convert_files W x c1 fs of
             Inl err \<Rightarrow> Inl err
           | Inr (c2, fs1) \<Rightarrow> Inr (c2, f1 # fs1)))"

fun convertTemplates ::
  "('tree, 'state, 'x, 'e) world \<Rightarrow> CompiledTemplatesProgram
     \<Rightarrow> ('tree, 'state, 'x) TemplateToCompile list
     \<Rightarrow> 'e error + (CompiledTemplatesProgram \<times> ('tree, 'state, 'x) TemplateToCompile list)" where
  "convertTemplates W c [] = Inr (c, [])"
| "convertTemplates W c (t # ts) =
     (case convert_files W (Extra (conf t)) c (files t) of
        Inl err \<Rightarrow> Inl err
      | Inr (c1, fs) \<Rightarrow>
          (case convertTemplates W c1 ts of
             Inl err \<Rightarrow> Inl err
           | Inr (c2, ts1) \<Rightarrow> Inr (c2, t\<lparr>files := fs\<rparr> # ts1)))"

definition compileTemplates ::
  "('tree, 'state, 'x, 'e) world \<Rightarrow> CompiledTemplatesProgram \<Rightarrow> string
     \<Rightarrow> ('tree, 'state, 'x) TemplateToCompile list \<Rightarrow> 'e error + string" where
  "compileTemplates W c outpkg templatesToCompile =
     (case convertTemplates W c templatesToCompile of
        Inl err \<Rightarrow> Inl err
      | Inr (c1, tpls) \<Rightarrow>
          Inr (generateProgram (Quote W) (RangeTexts W) (PrintFunc W) c1 outpkg tpls))"

definition Compile ::
  "('tree, 'state, 'x, 'e) world \<Rightarrow> CompiledTemplatesProgram \<Rightarrow> 'x Configuration
     \<Rightarrow> 'e error + string" where
  "Compile W c config =
     (case updateOutPkg W config of
        Inl err \<Rightarrow> Inl err
      | Inr config1 \<Rightarrow>
          (case getTemplatesToCompile W config1 of
             Inl err \<Rightarrow> Inl err
           | Inr templatesToCompile \<Rightarrow> compileTemplates W c (OutPkg config1) templatesToCompile))"

text \<open>
  \<^verbatim>\<open>CompileAndWrite\<close> returns the calls of \<^verbatim>\<open>ioutil.WriteFile\<close> it has made (path and
  content) and its error, if any.
\<close>

definition CompileAndWrite ::
  "('tree, 'state, 'x, 'e) world \<Rightarrow> CompiledTemplatesProgram \<Rightarrow> 'x Configuration
     \<Rightarrow> (string \<times> string) list \<times> 'e error option" where
  "CompileAndWrite W c config =
     (case Compile W c config of
        Inl err \<Rightarrow> ([], Some err)
      | Inr program \<Rightarrow>
          (case WriteFile W (OutPath config) program of
             Some err \<Rightarrow> ([(OutPath config, program)], Some (WriteFailed err))
           | None \<Rightarrow> ([(OutPath config, program)], None)))"

text \<open>A world for the examples: one template file, a malformed pattern, a broken content.\<close>

definition world0 :: "(nat, nat, unit, string) world" where
  "world0 = \<lparr>
     BadPattern = (\<lambda>p. p = ''[''),
     Matches = (\<lambda>p. if p = ''tpl/*.tpl'' then [''tpl/a.tpl''] else []),
     ReadFile = (\<lambda>p. if p = ''tpl/a.tpl'' then Inr ''hello'' else Inl ''no such file''),
     StatNotExist = (\<lambda>d. if d = ''missing'' then Some ''no such directory'' else None),
     DirOf = (\<lambda>p. if p = ''missing/gen.go'' then ''missing'' else ''out''),
     WriteFile = (\<lambda>p content. None),
     ParseText = (\<lambda>nm content x. if content = ''{{'' then Inl ''unclosed action''
                   else Inr [(nm, Some 0), (''embed'', Some 1), (''lazy'', None)]),
     ParseHTML = (\<lambda>nm content x. if content = ''{{'' then Inl ''unclosed action''
                   else Inr [(nm, Some 0), (''embed'', Some 1), (''lazy'', None)]),
     TransformTree = (\<lambda>tree x. tree),
     ConvertTplTree = (\<lambda>fname tree x st c. if fname = ''bad'' then Inl ''cannot convert'' else Inr c),
     SnakeToCamel = (\<lambda>s. s),
     ToLower = (\<lambda>s. s),
     Quote = plain_quote,
     PrintFunc = fn_name,
     RangeTrees = (\<lambda>m. m),
     RangeTexts = (\<lambda>m. m)\<rparr>"

section \<open>Properties of loading and of the compile request\<close>

lemma map_put_keys: "fst ` set (map_put k v m) = insert k (fst ` set m)"
proof (induction m)
  case Nil
  show ?case by simp
next
  case (Cons p m)
  obtain k' v' where p: "p = (k', v')" by (cases p)
  show ?case
  proof (cases "k = k'")
    case True
    with p show ?thesis by simp
  next
    case False
    with p Cons show ?thesis by (simp add: insert_commute)
  qed
qed

lemma map_put_entries: "(n, t) \<in> set (map_put k v m) \<Longrightarrow> (n, t) = (k, v) \<or> (n, t) \<in> set m"
  by (induction m) (auto split: if_splits)

lemma map_put_distinct: "distinct (map fst m) \<Longrightarrow> distinct (map fst (map_put k v m))"
  by (induction m) (auto simp: map_put_keys)

lemma collect_step:
  "foldl (\<lambda>ret (nm, tree). case tree of None \<Rightarrow> ret | Some tr \<Rightarrow> map_put nm tr ret) acc tpls = m \<Longrightarrow>
   distinct (map fst acc) \<Longrightarrow>
     distinct (map fst m) \<and>
     fst ` set m = fst ` set acc \<union> {n. \<exists>t. (n, Some t) \<in> set tpls} \<and>
     (\<forall>n t. (n, t) \<in> set m \<longrightarrow> (n, t) \<in> set acc \<or> (n, Some t) \<in> set tpls)"
proof (induction tpls arbitrary: acc)
  case Nil
  then show ?case by auto
next
  case (Cons p tpls)
  obtain n tr where p: "p = (n, tr)" by (cases p)
  show ?case
  proof (cases tr)
    case None
    with Cons.prems p have "foldl (\<lambda>ret (nm, tree). case tree of None \<Rightarrow> ret | Some tr \<Rightarrow> map_put nm tr ret) acc tpls = m"
      by simp
    from Cons.IH [OF this Cons.prems(2)] p None show ?thesis by auto
  next
    case (Some t)
    with Cons.prems p have "foldl (\<lambda>ret (nm, tree). case tree of None \<Rightarrow> ret | Some tr \<Rightarrow> map_put nm tr ret) (map_put n t acc) tpls = m"
      by simp
    from Cons.IH [OF this map_put_distinct [OF Cons.prems(2)]]
    have d: "distinct (map fst m)"
      and k: "fst ` set m = fst ` set (map_put n t acc) \<union> {n. \<exists>t. (n, Some t) \<in> set tpls}"
      and e: "\<And>n' t'. (n', t') \<in> set m \<Longrightarrow> (n', t') \<in> set (map_put n t acc) \<or> (n', Some t') \<in> set tpls"
      by blast+
    have k': "fst ` set m = fst ` set acc \<union> {n. \<exists>t. (n, Some t) \<in> set (p # tpls)}"
      using k p Some by (auto simp: map_put_keys)
    have e': "\<forall>n' t'. (n', t') \<in> set m \<longrightarrow> (n', t') \<in> set acc \<or> (n', Some t') \<in> set (p # tpls)"
    proof (intro allI impI)
      fix n' t' assume "(n', t') \<in> set m"
      from e [OF this] show "(n', t') \<in> set acc \<or> (n', Some t') \<in> set (p # tpls)"
        using p Some by (auto dest: map_put_entries)
    qed
    from d k' e' show ?thesis by blast
  qed
qed

lemma collect_trees_spec:
  "distinct (map fst (collect_trees tpls)) \<and>
   fst ` set (collect_trees tpls) = {n. \<exists>t. (n, Some t) \<in> set tpls} \<and>
   (\<forall>n t. (n, t) \<in> set (collect_trees tpls) \<longrightarrow> (n, Some t) \<in> set tpls)"
  using collect_step [of "[]" tpls "collect_trees tpls"]
  by (simp add: collect_trees_def)

lemma collect_trees_drops:
  "(\<forall>tree. (n, tree) \<in> set tpls \<longrightarrow> tree = None) \<Longrightarrow> n \<notin> fst ` set (collect_trees tpls)"
proof -
  assume "\<forall>tree. (n, tree) \<in> set tpls \<longrightarrow> tree = None"
  then have "n \<notin> {n. \<exists>t. (n, Some t) \<in> set tpls}" by auto
  with collect_trees_spec [of tpls] show ?thesis by blast
qed

lemma collect_trees_keeps:
  "(n, Some t) \<in> set tpls \<Longrightarrow> n \<in> fst ` set (collect_trees tpls)"
proof -
  assume "(n, Some t) \<in> set tpls"
  then have "n \<in> {n. \<exists>t. (n, Some t) \<in> set tpls}" by auto
  with collect_trees_spec [of tpls] show ?thesis by blast
qed

lemma collect_trees_sound:
  "(n, t) \<in> set (collect_trees tpls) \<Longrightarrow> (n, Some t) \<in> set tpls"
  using collect_trees_spec [of tpls] by blast

text \<open>
  C9: \<^verbatim>\<open>compileTextTemplate\<close> and \<^verbatim>\<open>compileHTMLTemplate\<close> fail exactly when the parser
  rejects the content. When it accepts, the result is the map collected from the
  templates: a name whose tree is unset (a nil tree after the probe) at every template
  of that name is left out, without an error; a name with a tree is kept; and every
  entry kept is a name with the tree it had, which is not nil. The nil pointer is the
  only kind of empty tree that the source tests for.
\<close>

theorem compile_template_drops_unset:
  "((\<exists>err. compileTextTemplate W nm content x = Inl err) \<longleftrightarrow>
      (\<exists>err. ParseText W nm content x = Inl err)) \<and>
   ((\<exists>err. compileHTMLTemplate W nm content x = Inl err) \<longleftrightarrow>
      (\<exists>err. ParseHTML W nm content x = Inl err)) \<and>
   (\<forall>tpls. ParseText W nm content x = Inr tpls \<longrightarrow>
      compileTextTemplate W nm content x = Inr (collect_trees tpls)) \<and>
   (\<forall>tpls. ParseHTML W nm content x = Inr tpls \<longrightarrow>
      compileHTMLTemplate W nm content x = Inr (collect_trees tpls)) \<and>
   (\<forall>(tpls :: (string \<times> 'tree option) list) n.
      (\<forall>tree. (n, tree) \<in> set tpls \<longrightarrow> tree = None) \<longrightarrow>
      n \<notin> fst ` set (collect_trees tpls)) \<and>
   (\<forall>(tpls :: (string \<times> 'tree option) list) n t.
      (n, Some t) \<in> set tpls \<longrightarrow> n \<in> fst ` set (collect_trees tpls)) \<and>
   (\<forall>(tpls :: (string \<times> 'tree option) list) n t.
      (n, t) \<in> set (collect_trees tpls) \<longrightarrow> (n, Some t) \<in> set tpls)"
  for W :: "('tree, 'state, 'x, 'e) world"
proof -
  have a: "(\<exists>err. compileTextTemplate W nm content x = Inl err) \<longleftrightarrow>
      (\<exists>err. ParseText W nm content x = Inl err)"
    by (auto simp: compileTextTemplate_def split: sum.splits)
  have b: "(\<exists>err. compileHTMLTemplate W nm content x = Inl err) \<longleftrightarrow>
      (\<exists>err. ParseHTML W nm content x = Inl err)"
    by (auto simp: compileHTMLTemplate_def split: sum.splits)
  have c: "\<forall>tpls. ParseText W nm content x = Inr tpls \<longrightarrow>
      compileTextTemplate W nm content x = Inr (collect_trees tpls)"
    by (simp add: compileTextTemplate_def)
  have d: "\<forall>tpls. ParseHTML W nm content x = Inr tpls \<longrightarrow>
      compileHTMLTemplate W nm content x = Inr (collect_trees tpls)"
    by (simp add: compileHTMLTemplate_def)
  from a b c d show ?thesis
    by (intro conjI allI impI) (auto intro: collect_trees_keeps dest: collect_trees_sound collect_trees_drops)
qed

lemma prepare_files_error:
  "prepare_files W t ps = Inl err \<Longrightarrow> \<exists>e. err = Raw e"
proof (induction ps arbitrary: t)
  case Nil
  then show ?case by simp
next
  case (Cons p ps)
  show ?case
  proof (cases "makeTemplateFileToCompileFromFile W p (Extra (conf t)) (HTML (conf t))")
    case (Inl e)
    with Cons.prems have "makeTemplateFileToCompileFromFile W p (Extra (conf t)) (HTML (conf t)) = Inl err"
      by simp
    then show ?thesis
      by (auto simp: makeTemplateFileToCompileFromFile_def Let_def split: sum.splits if_splits)
  next
    case (Inr f)
    with Cons.prems have "prepare_files W (t\<lparr>files := files t @ [f]\<rparr>) ps = Inl err" by simp
    then show ?thesis by (rule Cons.IH)
  qed
qed

text \<open>
  C8: \<^verbatim>\<open>prepare\<close> fails with the discovery error (the one built around the error of
  \<^verbatim>\<open>filepath.Glob\<close>) exactly when the pattern is malformed; every other failure of
  \<^verbatim>\<open>prepare\<close> is the error of a file that could not be loaded. A well-formed pattern
  that matches no file leaves a new work item as it is, with no file, and gives no
  error.
\<close>

theorem prepare_discovery_error:
  "(prepare W t = Inl (GlobFailed (TemplatesPath (conf t)) ErrBadPattern)
      \<longleftrightarrow> BadPattern W (TemplatesPath (conf t))) \<and>
   ((\<exists>p e. prepare W t = Inl (GlobFailed p e)) \<longleftrightarrow> BadPattern W (TemplatesPath (conf t))) \<and>
   (\<not> BadPattern W (TemplatesPath templateConf) \<and> Matches W (TemplatesPath templateConf) = [] \<longrightarrow>
      prepare W (makeTemplateToCompileNew templateConf) = Inr (makeTemplateToCompileNew templateConf) \<and>
      files (makeTemplateToCompileNew templateConf :: ('tree, 'state, 'x) TemplateToCompile) = [])"
  for W :: "('tree, 'state, 'x, 'e) world"
proof (intro conjI impI)
  show "prepare W t = Inl (GlobFailed (TemplatesPath (conf t)) ErrBadPattern)
      \<longleftrightarrow> BadPattern W (TemplatesPath (conf t))"
    by (auto simp: prepare_def filepath_Glob_def dest: prepare_files_error)
  show "(\<exists>p e. prepare W t = Inl (GlobFailed p e)) \<longleftrightarrow> BadPattern W (TemplatesPath (conf t))"
    by (auto simp: prepare_def filepath_Glob_def dest: prepare_files_error)
next
  assume "\<not> BadPattern W (TemplatesPath templateConf) \<and> Matches W (TemplatesPath templateConf) = []"
  then show "prepare W (makeTemplateToCompileNew templateConf) = Inr (makeTemplateToCompileNew templateConf)"
    by (simp add: prepare_def filepath_Glob_def makeTemplateToCompileNew_def)
next
  show "files (makeTemplateToCompileNew templateConf :: ('tree, 'state, 'x) TemplateToCompile) = []"
    by (simp add: makeTemplateToCompileNew_def)
qed

definition tpls0 :: "(string \<times> nat option) list" where
  "tpls0 = [(''a.tpl'', Some 0), (''embed'', Some 1), (''lazy'', None)]"

definition conf_bad :: "unit TemplateConfiguration" where
  "conf_bad = \<lparr>TemplatesPath = ''['', HTML = False, Extra = ()\<rparr>"

definition conf_none :: "unit TemplateConfiguration" where
  "conf_none = \<lparr>TemplatesPath = ''none/*.tpl'', HTML = False, Extra = ()\<rparr>"

definition conf_tpl :: "unit TemplateConfiguration" where
  "conf_tpl = \<lparr>TemplatesPath = ''tpl/*.tpl'', HTML = False, Extra = ()\<rparr>"

definition config_missing :: "unit Configuration" where
  "config_missing = \<lparr>OutPath = ''missing/gen.go'', OutPkg = [], Templates = [conf_tpl]\<rparr>"

definition config_bad :: "unit Configuration" where
  "config_bad = \<lparr>OutPath = ''out/gen.go'', OutPkg = ''main'', Templates = [conf_bad]\<rparr>"

definition config_ok :: "unit Configuration" where
  "config_ok = \<lparr>OutPath = ''out/gen.go'', OutPkg = ''main'', Templates = [conf_none]\<rparr>"

definition tpl_none :: "(nat, nat, unit) TemplateToCompile" where
  "tpl_none = makeTemplateToCompileNew conf_none"

lemma collect_tpls0: "collect_trees tpls0 = [(''a.tpl'', 0), (''embed'', 1)]"
  by (simp add: collect_trees_def tpls0_def)

theorem compile_template_drops_unset_witness:
  "ParseText world0 ''a.tpl'' ''hello'' () = Inr tpls0 \<and>
   compileTextTemplate world0 ''a.tpl'' ''hello'' () = Inr [(''a.tpl'', 0), (''embed'', 1)] \<and>
   ParseHTML world0 ''a.tpl'' ''hello'' () = Inr tpls0 \<and>
   compileHTMLTemplate world0 ''a.tpl'' ''hello'' () = Inr [(''a.tpl'', 0), (''embed'', 1)] \<and>
   (''lazy'', None) \<in> set tpls0 \<and>
   ''lazy'' \<notin> fst ` set (collect_trees tpls0) \<and>
   (''embed'', Some 1) \<in> set tpls0 \<and>
   ''embed'' \<in> fst ` set (collect_trees tpls0) \<and>
   (\<exists>err. ParseText world0 ''a.tpl'' ''{{'' () = Inl err) \<and>
   (\<exists>err. compileTextTemplate world0 ''a.tpl'' ''{{'' () = Inl err)"
proof -
  have p: "ParseText world0 ''a.tpl'' ''hello'' () = Inr tpls0"
    "ParseHTML world0 ''a.tpl'' ''hello'' () = Inr tpls0"
    by (simp_all add: world0_def tpls0_def)
  have q: "\<exists>err. ParseText world0 ''a.tpl'' ''{{'' () = Inl err"
    by (simp add: world0_def)
  have l: "\<forall>tree. (''lazy'', tree) \<in> set tpls0 \<longrightarrow> tree = None"
    and e: "(''embed'', Some 1) \<in> set tpls0"
    by (simp_all add: tpls0_def)
  note t = compile_template_drops_unset [of world0 "''a.tpl''" "''hello''" "()"]
  from t p have a: "compileTextTemplate world0 ''a.tpl'' ''hello'' () = Inr [(''a.tpl'', 0), (''embed'', 1)]"
    "compileHTMLTemplate world0 ''a.tpl'' ''hello'' () = Inr [(''a.tpl'', 0), (''embed'', 1)]"
    by (simp_all add: collect_tpls0)
  from t l have b: "''lazy'' \<notin> fst ` set (collect_trees tpls0)" by blast
  from t e have c: "''embed'' \<in> fst ` set (collect_trees tpls0)" by blast
  from compile_template_drops_unset [of world0 "''a.tpl''" "''{{''" "()"] q
  have d: "\<exists>err. compileTextTemplate world0 ''a.tpl'' ''{{'' () = Inl err" by blast
  have l': "(''lazy'', None) \<in> set tpls0" by (simp add: tpls0_def)
  from p q l' e a b c d show ?thesis by blast
qed

theorem prepare_discovery_error_witness:
  "BadPattern world0 (TemplatesPath (conf (makeTemplateToCompileNew conf_bad :: (nat, nat, unit) TemplateToCompile))) \<and>
   prepare world0 (makeTemplateToCompileNew conf_bad) = Inl (GlobFailed ''['' ErrBadPattern) \<and>
   \<not> BadPattern world0 (TemplatesPath conf_none) \<and>
   Matches world0 (TemplatesPath conf_none) = [] \<and>
   prepare world0 (makeTemplateToCompileNew conf_none) = Inr (makeTemplateToCompileNew conf_none) \<and>
   \<not> BadPattern world0 (TemplatesPath (conf (makeTemplateToCompileNew conf_tpl :: (nat, nat, unit) TemplateToCompile))) \<and>
   (\<forall>p e. prepare world0 (makeTemplateToCompileNew conf_tpl) \<noteq> Inl (GlobFailed p e))"
proof -
  have a: "BadPattern world0 (TemplatesPath (conf (makeTemplateToCompileNew conf_bad :: (nat, nat, unit) TemplateToCompile)))"
    and b: "\<not> BadPattern world0 (TemplatesPath conf_none)"
    and c: "Matches world0 (TemplatesPath conf_none) = []"
    and d: "\<not> BadPattern world0 (TemplatesPath (conf (makeTemplateToCompileNew conf_tpl :: (nat, nat, unit) TemplateToCompile)))"
    and p: "TemplatesPath (conf (makeTemplateToCompileNew conf_bad :: (nat, nat, unit) TemplateToCompile)) = ''[''"
    by (simp_all add: world0_def conf_bad_def conf_none_def conf_tpl_def makeTemplateToCompileNew_def)
  from prepare_discovery_error [of world0 "makeTemplateToCompileNew conf_bad" conf_none] a p
  have e: "prepare world0 (makeTemplateToCompileNew conf_bad) = Inl (GlobFailed ''['' ErrBadPattern)"
    by simp
  from prepare_discovery_error [of world0 "makeTemplateToCompileNew conf_bad" conf_none] b c
  have f: "prepare world0 (makeTemplateToCompileNew conf_none) = Inr (makeTemplateToCompileNew conf_none)"
    by blast
  from prepare_discovery_error [of world0 "makeTemplateToCompileNew conf_tpl" conf_none] d
  have g: "\<forall>p e. prepare world0 (makeTemplateToCompileNew conf_tpl) \<noteq> Inl (GlobFailed p e)"
    by blast
  from a b c d e f g show ?thesis by blast
qed

lemma CompileAndWrite_failure:
  "Compile W c config = Inl err \<Longrightarrow> CompileAndWrite W c config = ([], Some err)"
  by (simp add: CompileAndWrite_def)

lemma Compile_lookup_fails:
  "OutPkg config = [] \<Longrightarrow> LookupPackageName W (OutPath config) = Inl err \<Longrightarrow>
   Compile W c config = Inl (if err = Panic then Panic else PackageLookupFailed err)"
  by (cases err) (simp_all add: Compile_def updateOutPkg_def)

lemma Compile_discovery_fails:
  "updateOutPkg W config = Inr config1 \<Longrightarrow> getTemplatesToCompile W config1 = Inl err \<Longrightarrow>
   Compile W c config = Inl err"
  by (simp add: Compile_def)

lemma Compile_conversion_fails:
  "updateOutPkg W config = Inr config1 \<Longrightarrow> getTemplatesToCompile W config1 = Inr tpls \<Longrightarrow>
   convertTemplates W c tpls = Inl err \<Longrightarrow> Compile W c config = Inl err"
  by (simp add: Compile_def compileTemplates_def)

lemma Compile_success:
  "Compile W c config = Inr program \<Longrightarrow>
   \<exists>config1 tpls c1 tpls1. updateOutPkg W config = Inr config1 \<and>
      getTemplatesToCompile W config1 = Inr tpls \<and>
      convertTemplates W c tpls = Inr (c1, tpls1) \<and>
      program = generateProgram (Quote W) (RangeTexts W) (PrintFunc W) c1 (OutPkg config1) tpls1"
  by (auto simp: Compile_def compileTemplates_def split: sum.splits prod.splits)

lemma updateOutPkg_keeps:
  "updateOutPkg W config = Inr config1 \<Longrightarrow>
   Templates config1 = Templates config \<and> OutPath config1 = OutPath config"
  by (auto simp: updateOutPkg_def split: if_splits sum.splits error.splits)

lemma updateOutPkg_error:
  "updateOutPkg W config = Inl err \<Longrightarrow>
   OutPkg config = [] \<and>
   (\<exists>e. LookupPackageName W (OutPath config) = Inl e \<and>
        err = (if e = Panic then Panic else PackageLookupFailed e))"
  by (auto simp: updateOutPkg_def split: if_splits sum.splits error.splits)

lemma make_file_ok:
  "makeTemplateFileToCompileFromFile W p x html = Inr f \<Longrightarrow>
   (\<exists>content. ReadFile W p = Inr content \<and>
      (html \<longrightarrow> (\<exists>tpls. ParseHTML W (filepath_Base p) content x = Inr tpls)) \<and>
      (\<not> html \<longrightarrow> (\<exists>tpls. ParseText W (filepath_Base p) content x = Inr tpls)))"
  by (auto simp: makeTemplateFileToCompileFromFile_def Let_def compileHTMLTemplate_def
      compileTextTemplate_def split: sum.splits if_splits)

lemma make_file_error:
  "makeTemplateFileToCompileFromFile W p x html = Inl err \<Longrightarrow>
   (\<exists>e. err = Raw e \<and>
      (ReadFile W p = Inl e \<or>
       (\<exists>content. ReadFile W p = Inr content \<and>
          (html \<and> ParseHTML W (filepath_Base p) content x = Inl e \<or>
           \<not> html \<and> ParseText W (filepath_Base p) content x = Inl e))))"
  by (auto simp: makeTemplateFileToCompileFromFile_def Let_def compileHTMLTemplate_def
      compileTextTemplate_def split: sum.splits if_splits)

lemma prepare_files_ok:
  "prepare_files W t ps = Inr r \<Longrightarrow> p \<in> set ps \<Longrightarrow>
   \<exists>f. makeTemplateFileToCompileFromFile W p (Extra (conf t)) (HTML (conf t)) = Inr f"
proof (induction ps arbitrary: t)
  case Nil
  then show ?case by simp
next
  case (Cons q ps)
  show ?case
  proof (cases "makeTemplateFileToCompileFromFile W q (Extra (conf t)) (HTML (conf t))")
    case (Inl e)
    with Cons.prems show ?thesis by simp
  next
    case (Inr f)
    with Cons.prems have r: "prepare_files W (t\<lparr>files := files t @ [f]\<rparr>) ps = Inr r" by simp
    show ?thesis
    proof (cases "p = q")
      case True
      with Inr show ?thesis by blast
    next
      case False
      with Cons.prems have "p \<in> set ps" by simp
      from Cons.IH [OF r this] show ?thesis by simp
    qed
  qed
qed

lemma prepare_files_fails:
  "prepare_files W t ps = Inl err \<Longrightarrow>
   \<exists>p \<in> set ps. makeTemplateFileToCompileFromFile W p (Extra (conf t)) (HTML (conf t)) = Inl err"
proof (induction ps arbitrary: t)
  case Nil
  then show ?case by simp
next
  case (Cons q ps)
  show ?case
  proof (cases "makeTemplateFileToCompileFromFile W q (Extra (conf t)) (HTML (conf t))")
    case (Inl e)
    with Cons.prems show ?thesis by simp
  next
    case (Inr f)
    with Cons.prems have "prepare_files W (t\<lparr>files := files t @ [f]\<rparr>) ps = Inl err" by simp
    from Cons.IH [OF this] show ?thesis by simp
  qed
qed

lemma prepare_ok:
  "prepare W t = Inr r \<Longrightarrow>
   \<not> BadPattern W (TemplatesPath (conf t)) \<and>
   (\<forall>p \<in> set (Matches W (TemplatesPath (conf t))).
      \<exists>f. makeTemplateFileToCompileFromFile W p (Extra (conf t)) (HTML (conf t)) = Inr f)"
  by (auto simp: prepare_def filepath_Glob_def split: if_splits dest: prepare_files_ok)

lemma prepare_fails:
  "prepare W t = Inl err \<Longrightarrow>
   (BadPattern W (TemplatesPath (conf t)) \<and> err = GlobFailed (TemplatesPath (conf t)) ErrBadPattern) \<or>
   (\<exists>p \<in> set (Matches W (TemplatesPath (conf t))).
      makeTemplateFileToCompileFromFile W p (Extra (conf t)) (HTML (conf t)) = Inl err)"
  by (auto simp: prepare_def filepath_Glob_def split: if_splits dest: prepare_files_fails)

lemma prepare_all_ok:
  "prepare_all W ts = Inr r \<Longrightarrow> t \<in> set ts \<Longrightarrow> \<exists>t1. prepare W t = Inr t1"
  by (induction ts arbitrary: r) (auto split: sum.splits)

lemma prepare_all_fails:
  "prepare_all W ts = Inl err \<Longrightarrow> \<exists>t \<in> set ts. prepare W t = Inl err"
  by (induction ts) (auto split: sum.splits)

lemma convert_names_ok:
  "convert_names W x c f nms = Inr r \<Longrightarrow> nm \<in> set nms \<Longrightarrow>
   \<exists>fname c1 c2. ConvertTplTree W fname (map_of (tplsTree f) nm) x (tplsTypeCheck f nm) c1 = Inr c2"
proof (induction nms arbitrary: c f)
  case Nil
  then show ?case by simp
next
  case (Cons n nms)
  obtain c1 allocated where a: "makeFuncName c (get_func (tplsFunc f) n) = (c1, allocated)"
    by (cases "makeFuncName c (get_func (tplsFunc f) n)")
  define f2 where "f2 = f\<lparr>tplsFunc := (tplsFunc f)(n \<mapsto> snakeToCamel W allocated)\<rparr>"
  have t: "tplsTree f2 = tplsTree f" "tplsTypeCheck f2 = tplsTypeCheck f" by (simp_all add: f2_def)
  show ?case
  proof (cases "ConvertTplTree W (snakeToCamel W allocated) (map_of (tplsTree f) n) x (tplsTypeCheck f n) c1")
    case (Inl e)
    with Cons.prems(1) a show ?thesis by (simp add: get_func_def)
  next
    case (Inr c2)
    with Cons.prems(1) a have r: "convert_names W x c2 f2 nms = Inr r"
      by (simp add: get_func_def f2_def)
    show ?thesis
    proof (cases "nm = n")
      case True
      with Inr show ?thesis by blast
    next
      case False
      with Cons.prems(2) have "nm \<in> set nms" by simp
      from Cons.IH [OF r this] t show ?thesis by simp
    qed
  qed
qed

lemma convert_names_fails:
  "convert_names W x c f nms = Inl err \<Longrightarrow>
   \<exists>e fname tree st c1. err = Raw e \<and> ConvertTplTree W fname tree x st c1 = Inl e"
proof (induction nms arbitrary: c f)
  case Nil
  then show ?case by simp
next
  case (Cons n nms)
  obtain c1 allocated where a: "makeFuncName c (get_func (tplsFunc f) n) = (c1, allocated)"
    by (cases "makeFuncName c (get_func (tplsFunc f) n)")
  define f2 where "f2 = f\<lparr>tplsFunc := (tplsFunc f)(n \<mapsto> snakeToCamel W allocated)\<rparr>"
  show ?case
  proof (cases "ConvertTplTree W (snakeToCamel W allocated) (map_of (tplsTree f) n) x (tplsTypeCheck f n) c1")
    case (Inl e)
    with Cons.prems(1) a have "err = Raw e" by (simp add: get_func_def)
    with Inl show ?thesis by blast
  next
    case (Inr c2)
    with Cons.prems(1) a have "convert_names W x c2 f2 nms = Inl err"
      by (simp add: get_func_def f2_def)
    from Cons.IH [OF this] show ?thesis .
  qed
qed

lemma convert_files_ok:
  "convert_files W x c fs = Inr r \<Longrightarrow> f \<in> set fs \<Longrightarrow>
   \<exists>c' r'. convert_names W x c' f (names f) = Inr r'"
proof (induction fs arbitrary: c r)
  case Nil
  then show ?case by simp
next
  case (Cons g fs)
  from Cons.prems(1) obtain c1 g1 c2 fs1 where
    g: "convert_names W x c g (names g) = Inr (c1, g1)"
    and r: "convert_files W x c1 fs = Inr (c2, fs1)"
    by (auto split: sum.splits prod.splits)
  show ?case
  proof (cases "f = g")
    case True
    with g show ?thesis by blast
  next
    case False
    with Cons.prems(2) have "f \<in> set fs" by simp
    from Cons.IH [OF r this] show ?thesis .
  qed
qed

lemma convert_files_fails:
  "convert_files W x c fs = Inl err \<Longrightarrow>
   \<exists>e fname tree st c1. err = Raw e \<and> ConvertTplTree W fname tree x st c1 = Inl e"
proof (induction fs arbitrary: c)
  case Nil
  then show ?case by simp
next
  case (Cons g fs)
  show ?case
  proof (cases "convert_names W x c g (names g)")
    case (Inl e)
    with Cons.prems have "convert_names W x c g (names g) = Inl err" by simp
    then show ?thesis by (rule convert_names_fails)
  next
    case (Inr p)
    obtain c1 g1 where p: "p = (c1, g1)" by (cases p)
    with Inr Cons.prems have "convert_files W x c1 fs = Inl err"
      by (simp split: sum.splits prod.splits)
    from Cons.IH [OF this] show ?thesis .
  qed
qed

lemma convertTemplates_ok:
  "convertTemplates W c ts = Inr r \<Longrightarrow> t \<in> set ts \<Longrightarrow>
   \<exists>c' r'. convert_files W (Extra (conf t)) c' (files t) = Inr r'"
proof (induction ts arbitrary: c r)
  case Nil
  then show ?case by simp
next
  case (Cons u ts)
  from Cons.prems(1) obtain c1 fs c2 ts1 where
    u: "convert_files W (Extra (conf u)) c (files u) = Inr (c1, fs)"
    and r: "convertTemplates W c1 ts = Inr (c2, ts1)"
    by (auto split: sum.splits prod.splits)
  show ?case
  proof (cases "t = u")
    case True
    with u show ?thesis by blast
  next
    case False
    with Cons.prems(2) have "t \<in> set ts" by simp
    from Cons.IH [OF r this] show ?thesis .
  qed
qed

lemma convertTemplates_fails:
  "convertTemplates W c ts = Inl err \<Longrightarrow>
   \<exists>e fname tree x st c1. err = Raw e \<and> ConvertTplTree W fname tree x st c1 = Inl e"
proof (induction ts arbitrary: c)
  case Nil
  then show ?case by simp
next
  case (Cons u ts)
  show ?case
  proof (cases "convert_files W (Extra (conf u)) c (files u)")
    case (Inl e)
    with Cons.prems have "convert_files W (Extra (conf u)) c (files u) = Inl err" by simp
    from convert_files_fails [OF this] show ?thesis by blast
  next
    case (Inr p)
    obtain c1 fs where p: "p = (c1, fs)" by (cases p)
    with Inr Cons.prems have "convertTemplates W c1 ts = Inl err"
      by (simp split: sum.splits prod.splits)
    from Cons.IH [OF this] show ?thesis .
  qed
qed

lemma load_ok:
  "getTemplatesToCompile W config1 = Inr tpls \<Longrightarrow> tc \<in> set (Templates config1) \<Longrightarrow>
   \<not> BadPattern W (TemplatesPath tc) \<and>
   (\<forall>p \<in> set (Matches W (TemplatesPath tc)).
      \<exists>f. makeTemplateFileToCompileFromFile W p (Extra tc) (HTML tc) = Inr f)"
  for W :: "('tree, 'state, 'x, 'e) world"
proof -
  assume g: "getTemplatesToCompile W config1 = Inr tpls" and m: "tc \<in> set (Templates config1)"
  let ?t = "makeTemplateToCompileNew tc :: ('tree, 'state, 'x) TemplateToCompile"
  from m have "?t \<in> set (map makeTemplateToCompileNew (Templates config1))" by simp
  with g obtain t1 where "prepare W ?t = Inr t1"
    unfolding getTemplatesToCompile_def convertConfigToTemplatesToCompile_def
    by (blast dest: prepare_all_ok)
  from prepare_ok [OF this] show ?thesis by (simp add: makeTemplateToCompileNew_def)
qed

lemma load_fails:
  "getTemplatesToCompile W config1 = Inl err \<Longrightarrow>
   \<exists>tc \<in> set (Templates config1).
     (BadPattern W (TemplatesPath tc) \<and> err = GlobFailed (TemplatesPath tc) ErrBadPattern) \<or>
     (\<exists>p \<in> set (Matches W (TemplatesPath tc)).
        makeTemplateFileToCompileFromFile W p (Extra tc) (HTML tc) = Inl err)"
  for W :: "('tree, 'state, 'x, 'e) world"
proof -
  assume "getTemplatesToCompile W config1 = Inl err"
  then obtain t :: "('tree, 'state, 'x) TemplateToCompile"
    where t: "t \<in> set (map makeTemplateToCompileNew (Templates config1))"
      and p: "prepare W t = Inl err"
    unfolding getTemplatesToCompile_def convertConfigToTemplatesToCompile_def
    by (blast dest: prepare_all_fails)
  from t obtain tc where tc: "tc \<in> set (Templates config1)" and e: "t = makeTemplateToCompileNew tc"
    by auto
  from prepare_fails [OF p] e have
    "(BadPattern W (TemplatesPath tc) \<and> err = GlobFailed (TemplatesPath tc) ErrBadPattern) \<or>
     (\<exists>p \<in> set (Matches W (TemplatesPath tc)).
        makeTemplateFileToCompileFromFile W p (Extra tc) (HTML tc) = Inl err)"
    by (simp add: makeTemplateToCompileNew_def)
  with tc show ?thesis by blast
qed

lemma Compile_fails_cases:
  "Compile W c config = Inl err \<Longrightarrow>
   updateOutPkg W config = Inl err \<or>
   (\<exists>config1. updateOutPkg W config = Inr config1 \<and>
      (getTemplatesToCompile W config1 = Inl err \<or>
       (\<exists>tpls. getTemplatesToCompile W config1 = Inr tpls \<and> convertTemplates W c tpls = Inl err)))"
  by (auto simp: Compile_def compileTemplates_def split: sum.splits prod.splits)

lemma nothing_written:
  "\<forall>program. Compile W c config \<noteq> Inr program \<Longrightarrow>
   fst (CompileAndWrite W c config) = [] \<and> snd (CompileAndWrite W c config) \<noteq> None"
  by (cases "Compile W c config") (simp_all add: CompileAndWrite_def)

lemma Compile_bad_pattern:
  assumes "tc \<in> set (Templates config)" and "BadPattern W (TemplatesPath tc)"
  shows "Compile W c config \<noteq> Inr program"
proof
  assume "Compile W c config = Inr program"
  from Compile_success [OF this] obtain config1 tpls where
    u: "updateOutPkg W config = Inr config1" and g: "getTemplatesToCompile W config1 = Inr tpls"
    by blast
  from updateOutPkg_keeps [OF u] assms(1) have "tc \<in> set (Templates config1)" by simp
  from load_ok [OF g this] assms(2) show False by simp
qed

lemma Compile_file_fails:
  assumes "tc \<in> set (Templates config)" and "p \<in> set (Matches W (TemplatesPath tc))"
    and "makeTemplateFileToCompileFromFile W p (Extra tc) (HTML tc) = Inl e"
  shows "Compile W c config \<noteq> Inr program"
proof
  assume "Compile W c config = Inr program"
  from Compile_success [OF this] obtain config1 tpls where
    u: "updateOutPkg W config = Inr config1" and g: "getTemplatesToCompile W config1 = Inr tpls"
    by blast
  from updateOutPkg_keeps [OF u] assms(1) have "tc \<in> set (Templates config1)" by simp
  from load_ok [OF g this] assms(2) assms(3) show False by auto
qed

lemma make_file_unreadable:
  "ReadFile W p = Inl e \<Longrightarrow> makeTemplateFileToCompileFromFile W p x html = Inl (Raw e)"
  by (simp add: makeTemplateFileToCompileFromFile_def Let_def)

lemma make_file_html_rejected:
  "ReadFile W p = Inr content \<Longrightarrow> ParseHTML W (filepath_Base p) content x = Inl e \<Longrightarrow>
   makeTemplateFileToCompileFromFile W p x True = Inl (Raw e)"
  by (simp add: makeTemplateFileToCompileFromFile_def Let_def compileHTMLTemplate_def)

lemma make_file_text_rejected:
  "ReadFile W p = Inr content \<Longrightarrow> ParseText W (filepath_Base p) content x = Inl e \<Longrightarrow>
   makeTemplateFileToCompileFromFile W p x False = Inl (Raw e)"
  by (simp add: makeTemplateFileToCompileFromFile_def Let_def compileTextTemplate_def)

lemma Compile_conversion_impossible:
  assumes u: "updateOutPkg W config = Inr config1"
    and g: "getTemplatesToCompile W config1 = Inr tpls"
    and t: "t \<in> set tpls" and f: "f \<in> set (files t)" and n: "nm \<in> set (names f)"
    and bad: "\<forall>fname c1. \<exists>e. ConvertTplTree W fname (map_of (tplsTree f) nm) (Extra (conf t))
                (tplsTypeCheck f nm) c1 = Inl e"
  shows "Compile W c config \<noteq> Inr program"
proof
  assume "Compile W c config = Inr program"
  from Compile_success [OF this] u g obtain c1 tpls1 where
    "convertTemplates W c tpls = Inr (c1, tpls1)" by auto
  from convertTemplates_ok [OF this t] obtain c' r' where
    "convert_files W (Extra (conf t)) c' (files t) = Inr r'" by blast
  from convert_files_ok [OF this f] obtain c'' r'' where
    "convert_names W (Extra (conf t)) c'' f (names f) = Inr r''" by blast
  from convert_names_ok [OF this n] obtain fname c3 c4 where
    "ConvertTplTree W fname (map_of (tplsTree f) nm) (Extra (conf t)) (tplsTypeCheck f nm) c3 = Inr c4"
    by blast
  with bad show False by (metis sum.distinct(1))
qed

lemma Compile_error_origin:
  assumes "Compile W c config = Inl err"
  shows "(OutPkg config = [] \<and>
          (\<exists>e. LookupPackageName W (OutPath config) = Inl e \<and>
               err = (if e = Panic then Panic else PackageLookupFailed e))) \<or>
         (\<exists>tc \<in> set (Templates config).
            BadPattern W (TemplatesPath tc) \<and> err = GlobFailed (TemplatesPath tc) ErrBadPattern) \<or>
         (\<exists>tc \<in> set (Templates config). \<exists>p \<in> set (Matches W (TemplatesPath tc)). \<exists>e.
            err = Raw e \<and>
            (ReadFile W p = Inl e \<or>
             (\<exists>content. ReadFile W p = Inr content \<and>
                (HTML tc \<and> ParseHTML W (filepath_Base p) content (Extra tc) = Inl e \<or>
                 \<not> HTML tc \<and> ParseText W (filepath_Base p) content (Extra tc) = Inl e)))) \<or>
         (\<exists>e fname tree x st c1. err = Raw e \<and> ConvertTplTree W fname tree x st c1 = Inl e)"
  (is "?A \<or> ?B \<or> ?C \<or> ?D")
proof -
  from Compile_fails_cases [OF assms] consider
    (lookup) "updateOutPkg W config = Inl err"
    | (load) config1 where "updateOutPkg W config = Inr config1" "getTemplatesToCompile W config1 = Inl err"
    | (convert) tpls where "convertTemplates W c tpls = Inl err"
    by blast
  then show ?thesis
  proof cases
    case lookup
    from updateOutPkg_error [OF this] have ?A by blast
    then show ?thesis by blast
  next
    case load
    from updateOutPkg_keeps [OF load(1)] have k: "Templates config1 = Templates config" by simp
    from load_fails [OF load(2)] k obtain tc where tc: "tc \<in> set (Templates config)"
      and d: "(BadPattern W (TemplatesPath tc) \<and> err = GlobFailed (TemplatesPath tc) ErrBadPattern) \<or>
         (\<exists>p \<in> set (Matches W (TemplatesPath tc)).
            makeTemplateFileToCompileFromFile W p (Extra tc) (HTML tc) = Inl err)"
      by auto
    from d show ?thesis
    proof
      assume "BadPattern W (TemplatesPath tc) \<and> err = GlobFailed (TemplatesPath tc) ErrBadPattern"
      with tc have ?B by blast
      then show ?thesis by blast
    next
      assume "\<exists>p \<in> set (Matches W (TemplatesPath tc)).
            makeTemplateFileToCompileFromFile W p (Extra tc) (HTML tc) = Inl err"
      then obtain p where p: "p \<in> set (Matches W (TemplatesPath tc))"
        and m: "makeTemplateFileToCompileFromFile W p (Extra tc) (HTML tc) = Inl err" by blast
      from make_file_error [OF m] tc p have ?C by blast
      then show ?thesis by blast
    qed
  next
    case convert
    from convertTemplates_fails [OF convert] have ?D .
    then show ?thesis by blast
  qed
qed

text \<open>
  More worlds for the examples: in \<open>world1\<close> every file holds a content that the parser
  rejects, in \<open>world2\<close> the node converter fails on the tree of the nested template, in
  \<open>world3\<close> no file can be read. \<open>tpl_a\<close> is the work item loaded from the one template file.
\<close>

definition world1 :: "(nat, nat, unit, string) world" where
  "world1 = world0\<lparr>ReadFile := (\<lambda>p. Inr ''{{'')\<rparr>"

definition world2 :: "(nat, nat, unit, string) world" where
  "world2 = world0\<lparr>ConvertTplTree :=
     (\<lambda>fname tree x st c. if tree = Some 1 then Inl ''cannot convert'' else Inr c)\<rparr>"

definition config_tpl :: "unit Configuration" where
  "config_tpl = \<lparr>OutPath = ''out/gen.go'', OutPkg = ''main'', Templates = [conf_tpl]\<rparr>"

definition file_a :: "(nat, nat) TemplateFileToCompile" where
  "file_a = \<lparr>name = ''a.tpl'', tplsTree = [(''a.tpl'', 0), (''embed'', 1)],
     tplsFunc = [''a.tpl'' \<mapsto> ''fna_tpl'', ''embed'' \<mapsto> ''fna_tpl_embed''],
     tplsTypeCheck = [''a.tpl'' \<mapsto> 0, ''embed'' \<mapsto> 1], definedTemplates = [''embed'']\<rparr>"

definition tpl_a :: "(nat, nat, unit) TemplateToCompile" where
  "tpl_a = \<lparr>conf = conf_tpl, files = [file_a]\<rparr>"

definition world3 :: "(nat, nat, unit, string) world" where
  "world3 = world0\<lparr>ReadFile := (\<lambda>p. Inl ''permission denied'')\<rparr>"

definition conf_html :: "unit TemplateConfiguration" where
  "conf_html = \<lparr>TemplatesPath = ''tpl/*.tpl'', HTML = True, Extra = ()\<rparr>"

definition config_html :: "unit Configuration" where
  "config_html = \<lparr>OutPath = ''out/gen.go'', OutPkg = ''main'', Templates = [conf_html]\<rparr>"

text \<open>
  C10: whenever \<^verbatim>\<open>Compile\<close> fails, \<^verbatim>\<open>CompileAndWrite\<close> returns that error and has not called
  \<^verbatim>\<open>WriteFile\<close>, and \<^verbatim>\<open>Compile\<close> fails whenever a stage does:
  \<^item> the package lookup, when no package is configured: its error comes back wrapped (a
    panic of the lookup unwinds as it is); so it is when the directory of the output path
    does not exist;
  \<^item> discovery: some configured pattern is malformed;
  \<^item> loading: some file matched by a configured pattern cannot be read, or the parser of
    the configuration's mode (\<open>ParseHTML\<close> or \<open>ParseText\<close>) rejects its content;
  \<^item> node conversion: the converter (\<open>ConvertTplTree\<close>) fails on the tree of some template
    name of some loaded file, whatever the function name and the program it is given.

  In each of these cases nothing is written and an error is returned. The error returned
  is that of the stage that failed first: it is the error of the lookup, or the discovery
  error of a malformed configured pattern, or the very error value returned by
  \<open>ReadFile\<close>, \<open>ParseHTML\<close>, \<open>ParseText\<close> on a matched file or by \<open>ConvertTplTree\<close>.
  If anything was written, then every stage has succeeded and the one write is that of the
  whole artifact returned by \<^verbatim>\<open>generateProgram\<close>, to the configured path.
\<close>

theorem CompileAndWrite_writes_last:
  "(\<forall>err. Compile W c config = Inl err \<longrightarrow> CompileAndWrite W c config = ([], Some err)) \<and>
   (\<forall>config1 err. updateOutPkg W config = Inr config1 \<and> getTemplatesToCompile W config1 = Inl err \<longrightarrow>
      CompileAndWrite W c config = ([], Some err)) \<and>
   (\<forall>config1 tpls err. updateOutPkg W config = Inr config1 \<and>
      getTemplatesToCompile W config1 = Inr tpls \<and> convertTemplates W c tpls = Inl err \<longrightarrow>
      CompileAndWrite W c config = ([], Some err)) \<and>
   (\<forall>err. OutPkg config = [] \<and> LookupPackageName W (OutPath config) = Inl err \<longrightarrow>
      CompileAndWrite W c config =
        ([], Some (if err = Panic then Panic else PackageLookupFailed err))) \<and>
   (\<forall>e. OutPkg config = [] \<and> StatNotExist W (DirOf W (OutPath config)) = Some e \<longrightarrow>
      CompileAndWrite W c config = ([], Some (PackageLookupFailed (Raw e)))) \<and>
   (\<forall>tc. tc \<in> set (Templates config) \<and> BadPattern W (TemplatesPath tc) \<longrightarrow>
      fst (CompileAndWrite W c config) = [] \<and> snd (CompileAndWrite W c config) \<noteq> None) \<and>
   (\<forall>tc p e. tc \<in> set (Templates config) \<and> p \<in> set (Matches W (TemplatesPath tc)) \<and>
      ReadFile W p = Inl e \<longrightarrow>
      fst (CompileAndWrite W c config) = [] \<and> snd (CompileAndWrite W c config) \<noteq> None) \<and>
   (\<forall>tc p content e. tc \<in> set (Templates config) \<and> p \<in> set (Matches W (TemplatesPath tc)) \<and>
      ReadFile W p = Inr content \<and> HTML tc \<and>
      ParseHTML W (filepath_Base p) content (Extra tc) = Inl e \<longrightarrow>
      fst (CompileAndWrite W c config) = [] \<and> snd (CompileAndWrite W c config) \<noteq> None) \<and>
   (\<forall>tc p content e. tc \<in> set (Templates config) \<and> p \<in> set (Matches W (TemplatesPath tc)) \<and>
      ReadFile W p = Inr content \<and> \<not> HTML tc \<and>
      ParseText W (filepath_Base p) content (Extra tc) = Inl e \<longrightarrow>
      fst (CompileAndWrite W c config) = [] \<and> snd (CompileAndWrite W c config) \<noteq> None) \<and>
   (\<forall>config1 tpls t f nm. updateOutPkg W config = Inr config1 \<and>
      getTemplatesToCompile W config1 = Inr tpls \<and>
      t \<in> set tpls \<and> f \<in> set (files t) \<and> nm \<in> set (names f) \<and>
      (\<forall>fname c1. \<exists>e. ConvertTplTree W fname (map_of (tplsTree f) nm) (Extra (conf t))
                        (tplsTypeCheck f nm) c1 = Inl e) \<longrightarrow>
      fst (CompileAndWrite W c config) = [] \<and> snd (CompileAndWrite W c config) \<noteq> None) \<and>
   (\<forall>err. Compile W c config = Inl err \<longrightarrow>
      (OutPkg config = [] \<and>
       (\<exists>e. LookupPackageName W (OutPath config) = Inl e \<and>
            err = (if e = Panic then Panic else PackageLookupFailed e))) \<or>
      (\<exists>tc \<in> set (Templates config).
         BadPattern W (TemplatesPath tc) \<and> err = GlobFailed (TemplatesPath tc) ErrBadPattern) \<or>
      (\<exists>tc \<in> set (Templates config). \<exists>p \<in> set (Matches W (TemplatesPath tc)). \<exists>e.
         err = Raw e \<and>
         (ReadFile W p = Inl e \<or>
          (\<exists>content. ReadFile W p = Inr content \<and>
             (HTML tc \<and> ParseHTML W (filepath_Base p) content (Extra tc) = Inl e \<or>
              \<not> HTML tc \<and> ParseText W (filepath_Base p) content (Extra tc) = Inl e)))) \<or>
      (\<exists>e fname tree x st c1. err = Raw e \<and> ConvertTplTree W fname tree x st c1 = Inl e)) \<and>
   (fst (CompileAndWrite W c config) \<noteq> [] \<longrightarrow>
      (\<exists>config1 tpls c1 tpls1.
         updateOutPkg W config = Inr config1 \<and>
         getTemplatesToCompile W config1 = Inr tpls \<and>
         convertTemplates W c tpls = Inr (c1, tpls1) \<and>
         fst (CompileAndWrite W c config) =
           [(OutPath config,
             generateProgram (Quote W) (RangeTexts W) (PrintFunc W) c1 (OutPkg config1) tpls1)]))"
  for W :: "('tree, 'state, 'x, 'e) world"
proof (intro conjI allI impI)
  fix err assume "Compile W c config = Inl err"
  then show "CompileAndWrite W c config = ([], Some err)" by (rule CompileAndWrite_failure)
next
  fix config1 err
  assume "updateOutPkg W config = Inr config1 \<and> getTemplatesToCompile W config1 = Inl err"
  then have "Compile W c config = Inl err"
    using Compile_discovery_fails [of W config config1 err c] by blast
  then show "CompileAndWrite W c config = ([], Some err)" by (rule CompileAndWrite_failure)
next
  fix config1 tpls err
  assume "updateOutPkg W config = Inr config1 \<and>
      getTemplatesToCompile W config1 = Inr tpls \<and> convertTemplates W c tpls = Inl err"
  then have "Compile W c config = Inl err"
    using Compile_conversion_fails [of W config config1 tpls c err] by blast
  then show "CompileAndWrite W c config = ([], Some err)" by (rule CompileAndWrite_failure)
next
  fix err assume "OutPkg config = [] \<and> LookupPackageName W (OutPath config) = Inl err"
  then have "Compile W c config = Inl (if err = Panic then Panic else PackageLookupFailed err)"
    using Compile_lookup_fails [of config W err c] by blast
  then show "CompileAndWrite W c config =
        ([], Some (if err = Panic then Panic else PackageLookupFailed err))"
    by (rule CompileAndWrite_failure)
next
  fix e assume a: "OutPkg config = [] \<and> StatNotExist W (DirOf W (OutPath config)) = Some e"
  then have "LookupPackageName W (OutPath config) = Inl (Raw e)"
    by (simp add: LookupPackageName_def Let_def)
  with a have "Compile W c config = Inl (PackageLookupFailed (Raw e))"
    using Compile_lookup_fails [of config W "Raw e" c] by simp
  then show "CompileAndWrite W c config = ([], Some (PackageLookupFailed (Raw e)))"
    by (rule CompileAndWrite_failure)
next
  fix tc assume "tc \<in> set (Templates config) \<and> BadPattern W (TemplatesPath tc)"
  then have "\<forall>program. Compile W c config \<noteq> Inr program"
    by (blast dest: Compile_bad_pattern)
  then have "fst (CompileAndWrite W c config) = [] \<and> snd (CompileAndWrite W c config) \<noteq> None"
    by (rule nothing_written)
  then show "fst (CompileAndWrite W c config) = []" and "snd (CompileAndWrite W c config) \<noteq> None"
    by simp_all
next
  fix tc p e
  assume a: "tc \<in> set (Templates config) \<and> p \<in> set (Matches W (TemplatesPath tc)) \<and>
      ReadFile W p = Inl e"
  then have "makeTemplateFileToCompileFromFile W p (Extra tc) (HTML tc) = Inl (Raw e)"
    by (simp add: make_file_unreadable)
  with a have "\<forall>program. Compile W c config \<noteq> Inr program"
    by (blast dest: Compile_file_fails)
  then have "fst (CompileAndWrite W c config) = [] \<and> snd (CompileAndWrite W c config) \<noteq> None"
    by (rule nothing_written)
  then show "fst (CompileAndWrite W c config) = []" and "snd (CompileAndWrite W c config) \<noteq> None"
    by simp_all
next
  fix tc p content e
  assume a: "tc \<in> set (Templates config) \<and> p \<in> set (Matches W (TemplatesPath tc)) \<and>
      ReadFile W p = Inr content \<and> HTML tc \<and>
      ParseHTML W (filepath_Base p) content (Extra tc) = Inl e"
  then have "makeTemplateFileToCompileFromFile W p (Extra tc) (HTML tc) = Inl (Raw e)"
    using make_file_html_rejected [of W p content "Extra tc" e] by simp
  with a have "\<forall>program. Compile W c config \<noteq> Inr program"
    by (blast dest: Compile_file_fails)
  then have "fst (CompileAndWrite W c config) = [] \<and> snd (CompileAndWrite W c config) \<noteq> None"
    by (rule nothing_written)
  then show "fst (CompileAndWrite W c config) = []" and "snd (CompileAndWrite W c config) \<noteq> None"
    by simp_all
next
  fix tc p content e
  assume a: "tc \<in> set (Templates config) \<and> p \<in> set (Matches W (TemplatesPath tc)) \<and>
      ReadFile W p = Inr content \<and> \<not> HTML tc \<and>
      ParseText W (filepath_Base p) content (Extra tc) = Inl e"
  then have "makeTemplateFileToCompileFromFile W p (Extra tc) (HTML tc) = Inl (Raw e)"
    using make_file_text_rejected [of W p content "Extra tc" e] by simp
  with a have "\<forall>program. Compile W c config \<noteq> Inr program"
    by (blast dest: Compile_file_fails)
  then have "fst (CompileAndWrite W c config) = [] \<and> snd (CompileAndWrite W c config) \<noteq> None"
    by (rule nothing_written)
  then show "fst (CompileAndWrite W c config) = []" and "snd (CompileAndWrite W c config) \<noteq> None"
    by simp_all
next
  fix config1 tpls t f nm
  assume a: "updateOutPkg W config = Inr config1 \<and>
      getTemplatesToCompile W config1 = Inr tpls \<and>
      t \<in> set tpls \<and> f \<in> set (files t) \<and> nm \<in> set (names f) \<and>
      (\<forall>fname c1. \<exists>e. ConvertTplTree W fname (map_of (tplsTree f) nm) (Extra (conf t))
                        (tplsTypeCheck f nm) c1 = Inl e)"
  have "\<forall>program. Compile W c config \<noteq> Inr program"
  proof
    fix program
    from a show "Compile W c config \<noteq> Inr program"
      using Compile_conversion_impossible [of W config config1 tpls t f nm c program] by blast
  qed
  then have "fst (CompileAndWrite W c config) = [] \<and> snd (CompileAndWrite W c config) \<noteq> None"
    by (rule nothing_written)
  then show "fst (CompileAndWrite W c config) = []" and "snd (CompileAndWrite W c config) \<noteq> None"
    by simp_all
next
  fix err assume "Compile W c config = Inl err"
  then show "(OutPkg config = [] \<and>
       (\<exists>e. LookupPackageName W (OutPath config) = Inl e \<and>
            err = (if e = Panic then Panic else PackageLookupFailed e))) \<or>
      (\<exists>tc \<in> set (Templates config).
         BadPattern W (TemplatesPath tc) \<and> err = GlobFailed (TemplatesPath tc) ErrBadPattern) \<or>
      (\<exists>tc \<in> set (Templates config). \<exists>p \<in> set (Matches W (TemplatesPath tc)). \<exists>e.
         err = Raw e \<and>
         (ReadFile W p = Inl e \<or>
          (\<exists>content. ReadFile W p = Inr content \<and>
             (HTML tc \<and> ParseHTML W (filepath_Base p) content (Extra tc) = Inl e \<or>
              \<not> HTML tc \<and> ParseText W (filepath_Base p) content (Extra tc) = Inl e)))) \<or>
      (\<exists>e fname tree x st c1. err = Raw e \<and> ConvertTplTree W fname tree x st c1 = Inl e)"
    by (rule Compile_error_origin)
next
  assume "fst (CompileAndWrite W c config) \<noteq> []"
  then obtain program where p: "Compile W c config = Inr program"
    and w: "fst (CompileAndWrite W c config) = [(OutPath config, program)]"
    by (auto simp: CompileAndWrite_def split: sum.splits option.splits)
  from Compile_success [OF p] w
  show "\<exists>config1 tpls c1 tpls1.
         updateOutPkg W config = Inr config1 \<and>
         getTemplatesToCompile W config1 = Inr tpls \<and>
         convertTemplates W c tpls = Inr (c1, tpls1) \<and>
         fst (CompileAndWrite W c config) =
           [(OutPath config,
             generateProgram (Quote W) (RangeTexts W) (PrintFunc W) c1 (OutPkg config1) tpls1)]"
    by auto
qed

lemma lookup_missing:
  "LookupPackageName world0 (OutPath config_missing) = Inl (Raw ''no such directory'')"
  by (simp add: LookupPackageName_def world0_def config_missing_def Let_def)

lemma update_bad: "updateOutPkg world0 config_bad = Inr config_bad"
  by (simp add: updateOutPkg_def config_bad_def)

lemma discovery_bad:
  "getTemplatesToCompile world0 config_bad = Inl (GlobFailed ''['' ErrBadPattern)"
  by (simp add: getTemplatesToCompile_def convertConfigToTemplatesToCompile_def config_bad_def
      conf_bad_def makeTemplateToCompileNew_def prepare_def filepath_Glob_def world0_def)

lemma compile_ok:
  "Compile world0 prog0 config_ok =
     Inr (generateProgram plain_quote (\<lambda>m. m) fn_name prog0 ''main'' [tpl_none])"
  by (simp add: Compile_def updateOutPkg_def getTemplatesToCompile_def
      convertConfigToTemplatesToCompile_def config_ok_def conf_none_def makeTemplateToCompileNew_def
      tpl_none_def prepare_def filepath_Glob_def compileTemplates_def world0_def)

lemma base_a: "filepath_Base ''tpl/a.tpl'' = ''a.tpl''"
  by (simp add: filepath_Base_def is_sep_def)

lemma load_tpl2: "getTemplatesToCompile world2 config_tpl = Inr [tpl_a]"
  by (simp add: getTemplatesToCompile_def convertConfigToTemplatesToCompile_def config_tpl_def
      conf_tpl_def makeTemplateToCompileNew_def prepare_def filepath_Glob_def world2_def world0_def
      makeTemplateFileToCompileFromFile_def compileTextTemplate_def collect_trees_def base_a
      cleanTplName_def Let_def tpl_a_def file_a_def)

lemma names_file_a: "names file_a = [''a.tpl'', ''embed'']"
  by (simp add: names_def file_a_def)

lemma update_tpl2: "updateOutPkg world2 config_tpl = Inr config_tpl"
  by (simp add: updateOutPkg_def config_tpl_def)

lemma convert_tpl2: "convertTemplates world2 prog0 [tpl_a] = Inl (Raw ''cannot convert'')"
  by (simp add: tpl_a_def names_file_a)
     (simp add: file_a_def world2_def world0_def makeFuncName_def Let_def get_func_def
        split: prod.splits)

lemma compile_parse_fails: "Compile world1 prog0 config_tpl = Inl (Raw ''unclosed action'')"
  by (simp add: Compile_def updateOutPkg_def getTemplatesToCompile_def
      convertConfigToTemplatesToCompile_def config_tpl_def
      conf_tpl_def makeTemplateToCompileNew_def prepare_def filepath_Glob_def world1_def world0_def
      makeTemplateFileToCompileFromFile_def compileTextTemplate_def base_a Let_def)

theorem CompileAndWrite_writes_last_witness:
  "OutPkg config_missing = [] \<and>
   StatNotExist world0 (DirOf world0 (OutPath config_missing)) = Some ''no such directory'' \<and>
   LookupPackageName world0 (OutPath config_missing) = Inl (Raw ''no such directory'') \<and>
   CompileAndWrite world0 prog0 config_missing =
     ([], Some (PackageLookupFailed (Raw ''no such directory''))) \<and>
   conf_bad \<in> set (Templates config_bad) \<and> BadPattern world0 (TemplatesPath conf_bad) \<and>
   fst (CompileAndWrite world0 prog0 config_bad) = [] \<and>
   snd (CompileAndWrite world0 prog0 config_bad) \<noteq> None \<and>
   updateOutPkg world0 config_bad = Inr config_bad \<and>
   getTemplatesToCompile world0 config_bad = Inl (GlobFailed ''['' ErrBadPattern) \<and>
   CompileAndWrite world0 prog0 config_bad = ([], Some (GlobFailed ''['' ErrBadPattern)) \<and>
   conf_tpl \<in> set (Templates config_tpl) \<and>
   ''tpl/a.tpl'' \<in> set (Matches world3 (TemplatesPath conf_tpl)) \<and>
   ReadFile world3 ''tpl/a.tpl'' = Inl ''permission denied'' \<and>
   fst (CompileAndWrite world3 prog0 config_tpl) = [] \<and>
   snd (CompileAndWrite world3 prog0 config_tpl) \<noteq> None \<and>
   ''tpl/a.tpl'' \<in> set (Matches world1 (TemplatesPath conf_tpl)) \<and>
   ReadFile world1 ''tpl/a.tpl'' = Inr ''{{'' \<and> \<not> HTML conf_tpl \<and>
   ParseText world1 (filepath_Base ''tpl/a.tpl'') ''{{'' (Extra conf_tpl) = Inl ''unclosed action'' \<and>
   fst (CompileAndWrite world1 prog0 config_tpl) = [] \<and>
   snd (CompileAndWrite world1 prog0 config_tpl) \<noteq> None \<and>
   Compile world1 prog0 config_tpl = Inl (Raw ''unclosed action'') \<and>
   CompileAndWrite world1 prog0 config_tpl = ([], Some (Raw ''unclosed action'')) \<and>
   conf_html \<in> set (Templates config_html) \<and>
   ''tpl/a.tpl'' \<in> set (Matches world1 (TemplatesPath conf_html)) \<and> HTML conf_html \<and>
   ParseHTML world1 (filepath_Base ''tpl/a.tpl'') ''{{'' (Extra conf_html) = Inl ''unclosed action'' \<and>
   fst (CompileAndWrite world1 prog0 config_html) = [] \<and>
   snd (CompileAndWrite world1 prog0 config_html) \<noteq> None \<and>
   updateOutPkg world2 config_tpl = Inr config_tpl \<and>
   getTemplatesToCompile world2 config_tpl = Inr [tpl_a] \<and>
   tpl_a \<in> set [tpl_a] \<and> file_a \<in> set (files tpl_a) \<and> ''embed'' \<in> set (names file_a) \<and>
   (\<forall>fname c1. \<exists>e. ConvertTplTree world2 fname (map_of (tplsTree file_a) ''embed'')
       (Extra (conf tpl_a)) (tplsTypeCheck file_a ''embed'') c1 = Inl e) \<and>
   fst (CompileAndWrite world2 prog0 config_tpl) = [] \<and>
   snd (CompileAndWrite world2 prog0 config_tpl) \<noteq> None \<and>
   convertTemplates world2 prog0 [tpl_a] = Inl (Raw ''cannot convert'') \<and>
   CompileAndWrite world2 prog0 config_tpl = ([], Some (Raw ''cannot convert'')) \<and>
   fst (CompileAndWrite world0 prog0 config_ok) \<noteq> [] \<and>
   fst (CompileAndWrite world0 prog0 config_ok) =
     [(''out/gen.go'',
       generateProgram plain_quote (\<lambda>m. m) fn_name prog0 ''main'' [tpl_none])]"
proof -
  have a1: "OutPkg config_missing = []"
    and a2: "StatNotExist world0 (DirOf world0 (OutPath config_missing)) = Some ''no such directory''"
    by (simp_all add: config_missing_def world0_def)
  note a3 = lookup_missing
  from CompileAndWrite_writes_last [of world0 prog0 config_missing, THEN conjunct2, THEN conjunct2, THEN conjunct2, THEN conjunct2, THEN conjunct1] a1 a2
  have a4: "CompileAndWrite world0 prog0 config_missing =
     ([], Some (PackageLookupFailed (Raw ''no such directory'')))"
    by blast
  have b1: "conf_bad \<in> set (Templates config_bad)"
    and b2: "BadPattern world0 (TemplatesPath conf_bad)"
    by (simp_all add: config_bad_def conf_bad_def world0_def)
  from CompileAndWrite_writes_last [of world0 prog0 config_bad, THEN conjunct2, THEN conjunct2, THEN conjunct2, THEN conjunct2, THEN conjunct2, THEN conjunct1] b1 b2
  have b3: "fst (CompileAndWrite world0 prog0 config_bad) = []"
    and b4: "snd (CompileAndWrite world0 prog0 config_bad) \<noteq> None"
    by blast+
  note b5 = update_bad and b6 = discovery_bad
  from CompileAndWrite_writes_last [of world0 prog0 config_bad, THEN conjunct2, THEN conjunct1] b5 b6
  have b7: "CompileAndWrite world0 prog0 config_bad = ([], Some (GlobFailed ''['' ErrBadPattern))"
    by blast
  have c1: "conf_tpl \<in> set (Templates config_tpl)"
    and r1: "''tpl/a.tpl'' \<in> set (Matches world3 (TemplatesPath conf_tpl))"
    and r2: "ReadFile world3 ''tpl/a.tpl'' = Inl ''permission denied''"
    and c2: "''tpl/a.tpl'' \<in> set (Matches world1 (TemplatesPath conf_tpl))"
    and c3: "ReadFile world1 ''tpl/a.tpl'' = Inr ''{{''"
    and c4: "\<not> HTML conf_tpl"
    and c5: "ParseText world1 (filepath_Base ''tpl/a.tpl'') ''{{'' (Extra conf_tpl) = Inl ''unclosed action''"
    by (simp_all add: config_tpl_def conf_tpl_def world1_def world3_def world0_def)
  from CompileAndWrite_writes_last [of world3 prog0 config_tpl, THEN conjunct2, THEN conjunct2, THEN conjunct2, THEN conjunct2, THEN conjunct2, THEN conjunct2, THEN conjunct1] c1 r1 r2
  have r3: "fst (CompileAndWrite world3 prog0 config_tpl) = []"
    and r4: "snd (CompileAndWrite world3 prog0 config_tpl) \<noteq> None"
    by blast+
  from CompileAndWrite_writes_last [of world1 prog0 config_tpl, THEN conjunct2, THEN conjunct2, THEN conjunct2, THEN conjunct2, THEN conjunct2, THEN conjunct2, THEN conjunct2, THEN conjunct2, THEN conjunct1] c1 c2 c3 c4 c5
  have c6: "fst (CompileAndWrite world1 prog0 config_tpl) = []"
    and c7: "snd (CompileAndWrite world1 prog0 config_tpl) \<noteq> None"
    by blast+
  note c8 = compile_parse_fails
  from CompileAndWrite_writes_last [of world1 prog0 config_tpl, THEN conjunct1] c8
  have c9: "CompileAndWrite world1 prog0 config_tpl = ([], Some (Raw ''unclosed action''))"
    by blast
  have h1: "conf_html \<in> set (Templates config_html)"
    and h2: "''tpl/a.tpl'' \<in> set (Matches world1 (TemplatesPath conf_html))"
    and h3: "HTML conf_html"
    and h4: "ParseHTML world1 (filepath_Base ''tpl/a.tpl'') ''{{'' (Extra conf_html) = Inl ''unclosed action''"
    by (simp_all add: config_html_def conf_html_def world1_def world0_def)
  from CompileAndWrite_writes_last [of world1 prog0 config_html, THEN conjunct2, THEN conjunct2, THEN conjunct2, THEN conjunct2, THEN conjunct2, THEN conjunct2, THEN conjunct2, THEN conjunct1] h1 h2 c3 h3 h4
  have h5: "fst (CompileAndWrite world1 prog0 config_html) = []"
    and h6: "snd (CompileAndWrite world1 prog0 config_html) \<noteq> None"
    by blast+
  note d1 = update_tpl2 and d2 = load_tpl2
  have d3: "tpl_a \<in> set [tpl_a]" and d4: "file_a \<in> set (files tpl_a)"
    and d5: "''embed'' \<in> set (names file_a)"
    by (simp_all add: tpl_a_def names_file_a)
  have d6: "\<forall>fname c1. \<exists>e. ConvertTplTree world2 fname (map_of (tplsTree file_a) ''embed'')
       (Extra (conf tpl_a)) (tplsTypeCheck file_a ''embed'') c1 = Inl e"
    by (simp add: world2_def world0_def file_a_def)
  from CompileAndWrite_writes_last [of world2 prog0 config_tpl, THEN conjunct2, THEN conjunct2, THEN conjunct2, THEN conjunct2, THEN conjunct2, THEN conjunct2, THEN conjunct2, THEN conjunct2, THEN conjunct2, THEN conjunct1] d1 d2 d3 d4 d5 d6
  have d7: "fst (CompileAndWrite world2 prog0 config_tpl) = []"
    and d8: "snd (CompileAndWrite world2 prog0 config_tpl) \<noteq> None"
    by blast+
  note d9 = convert_tpl2
  from CompileAndWrite_writes_last [of world2 prog0 config_tpl, THEN conjunct2, THEN conjunct2, THEN conjunct1] d1 d2 d9
  have d10: "CompileAndWrite world2 prog0 config_tpl = ([], Some (Raw ''cannot convert''))"
    by blast
  have e1: "fst (CompileAndWrite world0 prog0 config_ok) \<noteq> []"
    by (simp add: CompileAndWrite_def compile_ok split: option.splits)
  from CompileAndWrite_writes_last [of world0 prog0 config_ok, THEN conjunct2, THEN conjunct2, THEN conjunct2, THEN conjunct2, THEN conjunct2, THEN conjunct2, THEN conjunct2, THEN conjunct2, THEN conjunct2, THEN conjunct2, THEN conjunct2] e1
  have "\<exists>config1 tpls c1 tpls1.
         updateOutPkg world0 config_ok = Inr config1 \<and>
         getTemplatesToCompile world0 config1 = Inr tpls \<and>
         convertTemplates world0 prog0 tpls = Inr (c1, tpls1) \<and>
         fst (CompileAndWrite world0 prog0 config_ok) =
           [(OutPath config_ok,
             generateProgram (Quote world0) (RangeTexts world0) (PrintFunc world0) c1
               (OutPkg config1) tpls1)]"
    by blast
  have e2: "fst (CompileAndWrite world0 prog0 config_ok) =
     [(''out/gen.go'',
       generateProgram plain_quote (\<lambda>m. m) fn_name prog0 ''main'' [tpl_none])]"
    by (simp add: CompileAndWrite_def compile_ok split: option.splits) (simp add: config_ok_def)
  from a1 a2 a3 a4 b1 b2 b3 b4 b5 b6 b7 c1 r1 r2 r3 r4 c2 c3 c4 c5 c6 c7 c8 c9
    h1 h2 h3 h4 h5 h6 d1 d2 d3 d4 d5 d6 d7 d8 d9 d10 e1 e2
  show ?thesis by blast
qed

end
